theory Spec2Isabelle
  imports Complex_Main "HOL-Library.Word"
begin

section \<open>JavaScript strings\<close>

text \<open>
  A JavaScript string is a sequence of UTF-16 code units. The curly quotation marks of
  \<^verbatim>\<open>stripSurroundingQuotes\<close> and the Unicode white space of \<^verbatim>\<open>\s\<close> lie outside
  ASCII, so a code unit is a 16-bit word and a string a list of them.
\<close>

type_synonym jschar = "16 word"
type_synonym jsstring = "jschar list"

text \<open>An ASCII literal of the source, as code units.\<close>

definition js :: "string \<Rightarrow> jsstring" where
  "js s = map (\<lambda>c. of_nat (of_char c)) s"

text \<open>
  The class \<^verbatim>\<open>\s\<close> of a regular expression and the characters removed by
  \<^verbatim>\<open>String.prototype.trim\<close> are the same set: WhiteSpace and LineTerminator of
  ECMAScript (TAB, LF, VT, FF, CR, SP, NBSP, the category Zs, LS, PS and U+FEFF).
\<close>

definition isWhiteSpace :: "jschar \<Rightarrow> bool" where
  "isWhiteSpace c \<longleftrightarrow>
     c = 0x09 \<or> c = 0x0A \<or> c = 0x0B \<or> c = 0x0C \<or> c = 0x0D \<or> c = 0x20 \<or>
     c = 0xA0 \<or> c = 0x1680 \<or> (0x2000 \<le> c \<and> c \<le> 0x200A) \<or>
     c = 0x2028 \<or> c = 0x2029 \<or> c = 0x202F \<or> c = 0x205F \<or> c = 0x3000 \<or>
     c = 0xFEFF"

definition dropTrailing :: "('a \<Rightarrow> bool) \<Rightarrow> 'a list \<Rightarrow> 'a list" where
  "dropTrailing P xs = rev (dropWhile P (rev xs))"

text \<open>\<^verbatim>\<open>s.trim()\<close>\<close>

definition trim :: "jsstring \<Rightarrow> jsstring" where
  "trim s = dropTrailing isWhiteSpace (dropWhile isWhiteSpace s)"

section \<open>Title sanitizer\<close>

text \<open>
  \<^verbatim>\<open>s.replace(/^[\s"'\<dots>]+|[\s"'\<dots>]+$/g, '')\<close> with the class holding white space, the
  straight quotes U+0022 and U+0027 and the curly quotes U+201C, U+201D, U+2018, U+2019.
  The first alternative matches the longest run of class characters at index 0; the
  second matches at the first index from which the class runs to the end of the string.
  Both matches are replaced by the empty string.
\<close>

definition isQuoteChar :: "jschar \<Rightarrow> bool" where
  "isQuoteChar c \<longleftrightarrow>
     c = 0x22 \<or> c = 0x27 \<or> c = 0x201C \<or> c = 0x201D \<or> c = 0x2018 \<or> c = 0x2019"

definition isStripChar :: "jschar \<Rightarrow> bool" where
  "isStripChar c \<longleftrightarrow> isWhiteSpace c \<or> isQuoteChar c"

definition stripSurroundingQuotes :: "jsstring \<Rightarrow> jsstring" where
  "stripSurroundingQuotes s = dropTrailing isStripChar (dropWhile isStripChar s)"

text \<open>The class \<^verbatim>\<open>[<>:"/\\|?*]\<close>.\<close>

definition isInvalidFileNameChar :: "jschar \<Rightarrow> bool" where
  "isInvalidFileNameChar c \<longleftrightarrow>
     c = 0x3C \<or> c = 0x3E \<or> c = 0x3A \<or> c = 0x22 \<or> c = 0x2F \<or> c = 0x5C \<or>
     c = 0x7C \<or> c = 0x3F \<or> c = 0x2A"

text \<open>\<^verbatim>\<open>s.replace(/[<>:"/\\|?*]/g, ' ')\<close>\<close>

definition replaceInvalid :: "jsstring \<Rightarrow> jsstring" where
  "replaceInvalid s = map (\<lambda>c. if isInvalidFileNameChar c then 0x20 else c) s"

text \<open>\<^verbatim>\<open>s.replace(/\s+/g, ' ')\<close>: every maximal run of white space becomes one space.\<close>

function collapseWhiteSpace :: "jsstring \<Rightarrow> jsstring" where
  "collapseWhiteSpace [] = []"
| "collapseWhiteSpace (c # cs) =
     (if isWhiteSpace c then 0x20 # collapseWhiteSpace (dropWhile isWhiteSpace cs)
      else c # collapseWhiteSpace cs)"
  by pat_completeness auto
termination
  by (relation "measure length") (auto simp: le_imp_less_Suc length_dropWhile_le)

definition removeInvalidFileNameChars :: "jsstring \<Rightarrow> jsstring" where
  "removeInvalidFileNameChars s = trim (collapseWhiteSpace (replaceInvalid s))"

text \<open>The two steps as \<^verbatim>\<open>generateTitle\<close> applies them to the provider's raw output.\<close>

definition sanitize :: "jsstring \<Rightarrow> jsstring" where
  "sanitize raw = removeInvalidFileNameChars (stripSurroundingQuotes raw)"

text \<open>Two white-space characters next to each other somewhere in a string.\<close>

fun adjacentWhiteSpace :: "jsstring \<Rightarrow> bool" where
  "adjacentWhiteSpace (a # b # cs) \<longleftrightarrow>
     (isWhiteSpace a \<and> isWhiteSpace b) \<or> adjacentWhiteSpace (b # cs)"
| "adjacentWhiteSpace _ \<longleftrightarrow> False"

text \<open>
  What the last two replacements leave behind: no character of the invalid class, no
  white space but the plain space, and no two spaces in a row.
\<close>

definition clean :: "jsstring \<Rightarrow> bool" where
  "clean s \<longleftrightarrow>
     (\<forall>c\<in>set s. \<not> isInvalidFileNameChar c \<and> (isWhiteSpace c \<longrightarrow> c = 0x20)) \<and>
     \<not> adjacentWhiteSpace s"

section \<open>Settings\<close>

datatype provider = OpenAI | Fireworks

text \<open>
  \<^verbatim>\<open>TitleGeneratorSettings\<close>. The interface types every field as a string, so the
  optional chaining of \<^verbatim>\<open>settings.customPrompt?.trim()\<close> and its siblings never
  short-circuits.
\<close>

record settings =
  provider :: provider
  openAiApiKey :: jsstring
  openAiModel :: jsstring
  fireworksApiKey :: jsstring
  fireworksModel :: jsstring
  customPrompt :: jsstring

definition DEFAULT_PROMPT :: jsstring where
  "DEFAULT_PROMPT =
     js ''Write a concise, descriptive Title Case note title based on the content below.\<newline>Rules:\<newline>- Aim for 4''
     @ [0x2013] @
     js ''8 words\<newline>- No quotes or trailing punctuation\<newline>- No emojis\<newline>- Keep it filename-safe\<newline>\<newline>Content:\<newline>{{content}}\<newline>\<newline>Return only the title.''"

definition DEFAULT_SETTINGS :: settings where
  "DEFAULT_SETTINGS =
     \<lparr>provider = OpenAI, openAiApiKey = [], openAiModel = js ''gpt-5-nano-2025-08-07'',
      fireworksApiKey = [], fireworksModel = [], customPrompt = DEFAULT_PROMPT\<rparr>"

section \<open>Template renderer\<close>

text \<open>
  The pattern \<^verbatim>\<open>/\{\{\s*content\s*\}\}/gi\<close>. With the flag \<^verbatim>\<open>i\<close> and without
  \<^verbatim>\<open>u\<close>, two code units match when their canonical forms agree; the canonical form
  of an ASCII letter is its upper case, and a code unit outside ASCII is never mapped
  into ASCII, so against an ASCII pattern only the ASCII case mapping matters.
\<close>

definition canonicalize :: "jschar \<Rightarrow> jschar" where
  "canonicalize c = (if 0x61 \<le> c \<and> c \<le> 0x7A then c - 0x20 else c)"

text \<open>A literal piece of the pattern at the start of the input; the result is the rest.\<close>

fun matchLiteral :: "jsstring \<Rightarrow> jsstring \<Rightarrow> jsstring option" where
  "matchLiteral [] s = Some s"
| "matchLiteral (p # ps) [] = None"
| "matchLiteral (p # ps) (c # cs) =
     (if canonicalize c = canonicalize p then matchLiteral ps cs else None)"

text \<open>
  One match attempt at the start of the input; the result is the length of the match.
  \<^verbatim>\<open>\s*\<close> is greedy, and since neither the letter c nor a closing brace is white
  space, no shorter run of white space can succeed where the longest fails.
\<close>

definition matchPlaceholder :: "jsstring \<Rightarrow> nat option" where
  "matchPlaceholder s =
     (case matchLiteral (js ''{{'') s of
        None \<Rightarrow> None
      | Some r1 \<Rightarrow>
          (case matchLiteral (js ''content'') (dropWhile isWhiteSpace r1) of
             None \<Rightarrow> None
           | Some r2 \<Rightarrow>
               (case matchLiteral (js ''}}'') (dropWhile isWhiteSpace r2) of
                  None \<Rightarrow> None
                | Some r3 \<Rightarrow> Some (length s - length r3))))"

text \<open>
  GetSubstitution of ECMAScript for a pattern without capture groups: in the replacement
  text \<^verbatim>\<open>$$\<close> stands for a dollar sign, \<^verbatim>\<open>$&\<close> for the matched text,
  \<^verbatim>\<open>$`\<close> for the subject before the match and \<^verbatim>\<open>$'\<close> for the subject after it;
  every other character, also a dollar sign before a digit, stands for itself.
\<close>

fun getSubstitution :: "jsstring \<Rightarrow> jsstring \<Rightarrow> jsstring \<Rightarrow> jsstring \<Rightarrow> jsstring" where
  "getSubstitution matched pre post [] = []"
| "getSubstitution matched pre post [c] = [c]"
| "getSubstitution matched pre post (c # d # r) =
     (if c = 0x24 \<and> d = 0x24 then 0x24 # getSubstitution matched pre post r
      else if c = 0x24 \<and> d = 0x60 then pre @ getSubstitution matched pre post r
      else if c = 0x24 \<and> d = 0x26 then matched @ getSubstitution matched pre post r
      else if c = 0x24 \<and> d = 0x27 then post @ getSubstitution matched pre post r
      else c # getSubstitution matched pre post (d # r))"

text \<open>
  \<^verbatim>\<open>tmpl.replace(/\{\{\s*content\s*\}\}/gi, replacement)\<close>: the subject is scanned from
  left to right, \<open>pre\<close> is the part already passed; after a match of length
  \<open>n\<close> the scan resumes \<open>n\<close> code units further (a match is never empty).
\<close>

fun replacePlaceholders :: "jsstring \<Rightarrow> jsstring \<Rightarrow> jsstring \<Rightarrow> jsstring" where
  "replacePlaceholders replacement pre [] = []"
| "replacePlaceholders replacement pre (c # cs) =
     (case matchPlaceholder (c # cs) of
        Some n \<Rightarrow>
          getSubstitution (take n (c # cs)) pre (drop n (c # cs)) replacement
          @ replacePlaceholders replacement (pre @ take n (c # cs)) (drop (n - 1) cs)
      | None \<Rightarrow> c # replacePlaceholders replacement (pre @ [c]) cs)"

text \<open>\<^verbatim>\<open>this.settings.customPrompt?.trim() || DEFAULT_PROMPT\<close>\<close>

definition promptTemplate :: "settings \<Rightarrow> jsstring" where
  "promptTemplate st =
     (let tmpl = trim (customPrompt st) in if tmpl = [] then DEFAULT_PROMPT else tmpl)"

definition renderPrompt :: "settings \<Rightarrow> jsstring \<Rightarrow> jsstring" where
  "renderPrompt st content = replacePlaceholders content [] (promptTemplate st)"

text \<open>
  The vocabulary of the rendering property: whether a placeholder occurs somewhere in a
  string; the pieces of a template between the placeholders found by the left-to-right
  scan, and the placeholders found; a list of pieces put together again with one filler
  after each piece but the last.
\<close>

fun hasPlaceholder :: "jsstring \<Rightarrow> bool" where
  "hasPlaceholder [] \<longleftrightarrow> False"
| "hasPlaceholder (c # cs) \<longleftrightarrow> matchPlaceholder (c # cs) \<noteq> None \<or> hasPlaceholder cs"





text \<open>
  The characters a placeholder is written with: braces, white space and the letters of
  \<^verbatim>\<open>content\<close> in either case.
\<close>

definition isPlaceholderChar :: "jschar \<Rightarrow> bool" where
  "isPlaceholderChar c \<longleftrightarrow>
     c = 0x7B \<or> c = 0x7D \<or> isWhiteSpace c \<or> canonicalize c \<in> set (js ''CONTENT'')"

text \<open>
  A string that is exactly one placeholder, and the five parts it is made of: the opening
  braces, white space, the word, white space, the closing braces.
\<close>

definition isPlaceholder :: "jsstring \<Rightarrow> bool" where
  "isPlaceholder m \<longleftrightarrow> matchPlaceholder m = Some (length m)"

definition placeholderParts :: "jsstring \<Rightarrow> jsstring \<Rightarrow> jsstring \<Rightarrow> jsstring \<Rightarrow> jsstring \<Rightarrow> bool" where
  "placeholderParts b1 w1 k w2 b2 \<longleftrightarrow>
     length b1 = length (js ''{{'') \<and> map canonicalize b1 = map canonicalize (js ''{{'') \<and>
     (\<forall>c\<in>set w1. isWhiteSpace c) \<and>
     length k = length (js ''content'') \<and>
     map canonicalize k = map canonicalize (js ''content'') \<and>
     (\<forall>c\<in>set w2. isWhiteSpace c) \<and>
     length b2 = length (js ''}}'') \<and> map canonicalize b2 = map canonicalize (js ''}}'')"

section \<open>Errors and parsed JSON\<close>

text \<open>
  What a \<^verbatim>\<open>throw\<close> carries or a promise rejects with: an \<^verbatim>\<open>Error\<close> with its
  message, or a \<^verbatim>\<open>TypeError\<close> raised by the language itself.
\<close>

datatype jserror = Error jsstring | TypeError

text \<open>
  A value as \<^verbatim>\<open>JSON.parse\<close> builds it. A number is kept as the rational its literal
  denotes; how it prints is the environment's \<^verbatim>\<open>numberToString\<close>. An object is its
  list of members in source order; of two members with one key the later one counts.
\<close>

datatype json =
    JNull
  | JBool bool
  | JNum rat
  | JStr jsstring
  | JArr "json list"
  | JObj "(jsstring \<times> json) list"

definition bindE :: "'e + 'a \<Rightarrow> ('a \<Rightarrow> 'e + 'b) \<Rightarrow> 'e + 'b" where
  "bindE r f = (case r of Inl e \<Rightarrow> Inl e | Inr x \<Rightarrow> f x)"

text \<open>
  \<^verbatim>\<open>v.key\<close> for the keys the plugin reads (\<^verbatim>\<open>output_text\<close>, \<^verbatim>\<open>output\<close>,
  \<^verbatim>\<open>content\<close>, \<^verbatim>\<open>text\<close>, \<^verbatim>\<open>choices\<close>, \<^verbatim>\<open>message\<close>), none of which a built-in
  prototype defines: reading from \<^verbatim>\<open>null\<close> raises, an object gives its member, any
  other value gives \<^verbatim>\<open>undefined\<close>, which is \<open>None\<close>.
\<close>

fun getMember :: "json \<Rightarrow> jsstring \<Rightarrow> jserror + json option" where
  "getMember JNull k = Inl TypeError"
| "getMember (JObj kvs) k = Inr (map_of (rev kvs) k)"
| "getMember v k = Inr None"

text \<open>\<^verbatim>\<open>v[0]\<close>: the first element of an array, the first code unit of a string.\<close>

fun getFirst :: "json \<Rightarrow> jserror + json option" where
  "getFirst JNull = Inl TypeError"
| "getFirst (JArr xs) = Inr (case xs of [] \<Rightarrow> None | x # _ \<Rightarrow> Some x)"
| "getFirst (JStr s) = Inr (case s of [] \<Rightarrow> None | c # _ \<Rightarrow> Some (JStr [c]))"
| "getFirst (JObj kvs) = Inr (map_of (rev kvs) (js ''0''))"
| "getFirst v = Inr None"

text \<open>
  One link \<^verbatim>\<open>v?.\<close> of an optional chain: on \<^verbatim>\<open>undefined\<close> and \<^verbatim>\<open>null\<close> the
  rest of the chain is skipped and gives \<^verbatim>\<open>undefined\<close>.
\<close>

definition optChain :: "json option \<Rightarrow> (json \<Rightarrow> jserror + json option) \<Rightarrow> jserror + json option" where
  "optChain v f = (case v of None \<Rightarrow> Inr None | Some JNull \<Rightarrow> Inr None | Some x \<Rightarrow> f x)"

text \<open>\<^verbatim>\<open>v ?? d\<close>\<close>

definition nullish :: "json option \<Rightarrow> json \<Rightarrow> json" where
  "nullish v d = (case v of None \<Rightarrow> d | Some JNull \<Rightarrow> d | Some x \<Rightarrow> x)"

text \<open>
  \<^verbatim>\<open>v.toString()\<close> for a value that is not \<^verbatim>\<open>null\<close>. An array joins the strings of
  its elements with commas, \<^verbatim>\<open>null\<close> elements counting as empty. An object prints as
  \<^verbatim>\<open>[object Object]\<close>, unless it has a member named \<^verbatim>\<open>toString\<close>: that member hides
  the built-in method and, being data, cannot be called.
\<close>

fun jsToString :: "(rat \<Rightarrow> jsstring) \<Rightarrow> json \<Rightarrow> jserror + jsstring"
  and joinToString :: "(rat \<Rightarrow> jsstring) \<Rightarrow> json list \<Rightarrow> jserror + jsstring" where
  "jsToString n2s JNull = Inl TypeError"
| "jsToString n2s (JBool b) = Inr (if b then js ''true'' else js ''false'')"
| "jsToString n2s (JNum r) = Inr (n2s r)"
| "jsToString n2s (JStr s) = Inr s"
| "jsToString n2s (JArr xs) = joinToString n2s xs"
| "jsToString n2s (JObj kvs) =
     (if map_of kvs (js ''toString'') = None then Inr (js ''[object Object]'') else Inl TypeError)"
| "joinToString n2s [] = Inr []"
| "joinToString n2s (x # xs) =
     (case (if x = JNull then Inr [] else jsToString n2s x) of
        Inl e \<Rightarrow> Inl e
      | Inr s \<Rightarrow>
          (if xs = [] then Inr s
           else (case joinToString n2s xs of
                   Inl e \<Rightarrow> Inl e
                 | Inr t \<Rightarrow> Inr (s @ js '','' @ t))))"

text \<open>\<^verbatim>\<open>v.trim()\<close>: only a string has the method.\<close>

fun jsTrim :: "json \<Rightarrow> jserror + jsstring" where
  "jsTrim (JStr s) = Inr (trim s)"
| "jsTrim v = Inl TypeError"

text \<open>\<^verbatim>\<open>s.startsWith(p)\<close> and \<^verbatim>\<open>s.includes(p)\<close>\<close>

fun startsWith :: "jsstring \<Rightarrow> jsstring \<Rightarrow> bool" where
  "startsWith s [] \<longleftrightarrow> True"
| "startsWith [] (p # ps) \<longleftrightarrow> False"
| "startsWith (c # cs) (p # ps) \<longleftrightarrow> c = p \<and> startsWith cs ps"

fun includesStr :: "jsstring \<Rightarrow> jsstring \<Rightarrow> bool" where
  "includesStr [] p \<longleftrightarrow> p = []"
| "includesStr (c # cs) p \<longleftrightarrow> startsWith (c # cs) p \<or> includesStr cs p"

text \<open>The decimal digits of a number, as a template literal prints \<^verbatim>\<open>res.status\<close>.\<close>

fun showNat :: "nat \<Rightarrow> jsstring" where
  "showNat n = (if n < 10 then [of_nat (48 + n)] else showNat (n div 10) @ [of_nat (48 + n mod 10)])"

section \<open>The host and the network\<close>

text \<open>\<^verbatim>\<open>TFile\<close>: the plugin reads nothing of a file but its path in the vault.\<close>

record tfile =
  path :: jsstring

text \<open>The argument of \<^verbatim>\<open>fetch\<close> and what the plugin reads of the response.\<close>

record fetchRequest =
  reqUrl :: jsstring
  reqMethod :: jsstring
  reqHeaders :: "(jsstring \<times> jsstring) list"
  reqBody :: json

record fetchResponse =
  resOk :: bool
  resStatus :: nat
  resText :: "jserror + jsstring"
  resJson :: "jserror + json"

text \<open>
  Everything the plugin does that can be seen from outside, in the order it happens: the
  status bar item and its removal, the error log and the notice, and the calls that leave
  the plugin (reading a file, the two endpoints of the SDK, \<^verbatim>\<open>fetch\<close>, the rename).
\<close>

datatype event =
    StatusShown nat jsstring
  | StatusRemoved nat
  | ConsoleError jserror
  | NoticeShown jserror
  | CachedRead jsstring
  | CompletionsCreate json
  | ChatCompletionsCreate json
  | Fetch fetchRequest
  | RenameFile jsstring jsstring

text \<open>
  The state the plugin works on: the items now in the status bar and the next fresh one,
  the events so far, and \<^verbatim>\<open>this.openai\<close>, the SDK client with the key it holds.
\<close>

record world =
  statusBar :: "nat list"
  nextItem :: nat
  events :: "event list"
  openai :: "jsstring option"

text \<open>
  The answers of the outside world, which may depend on everything that happened before:
  a promise that rejects is \<open>Inl\<close>. \<^verbatim>\<open>numberToString\<close>, \<^verbatim>\<open>lowerCaseNonAscii\<close> and
  \<^verbatim>\<open>unicodeNFC\<close> stand for the number formatting and the Unicode tables of the
  JavaScript engine.
\<close>

record env =
  cachedRead :: "world \<Rightarrow> jsstring \<Rightarrow> jserror + jsstring"
  completionsCreate :: "world \<Rightarrow> json \<Rightarrow> jserror + json"
  chatCompletionsCreate :: "world \<Rightarrow> json \<Rightarrow> jserror + json"
  fetch :: "world \<Rightarrow> fetchRequest \<Rightarrow> jserror + fetchResponse"
  renameFile :: "world \<Rightarrow> jsstring \<Rightarrow> jsstring \<Rightarrow> jserror option"
  numberToString :: "rat \<Rightarrow> jsstring"
  lowerCaseNonAscii :: "jschar \<Rightarrow> jsstring"
  unicodeNFC :: "jsstring \<Rightarrow> jsstring"

definition emit :: "event \<Rightarrow> world \<Rightarrow> world" where
  "emit e w = w\<lparr>events := events w @ [e]\<rparr>"

text \<open>\<^verbatim>\<open>this.addStatusBarItem()\<close>, \<^verbatim>\<open>item.createEl('span', {text})\<close>, \<^verbatim>\<open>item.remove()\<close>\<close>

definition addStatusBarItem :: "world \<Rightarrow> nat \<times> world" where
  "addStatusBarItem w =
     (nextItem w, w\<lparr>statusBar := statusBar w @ [nextItem w], nextItem := Suc (nextItem w)\<rparr>)"

definition createEl :: "nat \<Rightarrow> jsstring \<Rightarrow> world \<Rightarrow> world" where
  "createEl item txt w = emit (StatusShown item txt) w"

definition removeItem :: "nat \<Rightarrow> world \<Rightarrow> world" where
  "removeItem item w = emit (StatusRemoved item) (w\<lparr>statusBar := removeAll item (statusBar w)\<rparr>)"

section \<open>Provider clients\<close>

text \<open>
  \<^verbatim>\<open>model.toLowerCase()\<close>: an ASCII capital becomes its small letter, other ASCII
  stays; outside ASCII the mapping is the engine's.
\<close>

definition toLowerCase :: "env \<Rightarrow> jsstring \<Rightarrow> jsstring" where
  "toLowerCase en s =
     concat (map (\<lambda>c. if 0x41 \<le> c \<and> c \<le> 0x5A then [c + 0x20]
                       else if c < 0x80 then [c] else lowerCaseNonAscii en c) s)"

definition useCompletionsEndpoint :: "env \<Rightarrow> jsstring \<Rightarrow> bool" where
  "useCompletionsEndpoint en model =
     (if model = [] then False
      else (let lower = toLowerCase en model in
              includesStr lower (js ''instruct'') \<or>
              startsWith lower (js ''text-'') \<or>
              includesStr lower (js ''davinci'') \<or>
              includesStr lower (js ''curie'') \<or>
              includesStr lower (js ''babbage'') \<or>
              includesStr lower (js ''ada'')))"

text \<open>\<^verbatim>\<open>(response.choices?.[0]?.text ?? '').trim()\<close>\<close>

definition completionText :: "json \<Rightarrow> jserror + jsstring" where
  "completionText response =
     bindE (getMember response (js ''choices'')) (\<lambda>choices.
     bindE (optChain choices getFirst) (\<lambda>choice.
     bindE (optChain choice (\<lambda>v. getMember v (js ''text''))) (\<lambda>t.
     jsTrim (nullish t (JStr [])))))"

text \<open>\<^verbatim>\<open>(response.choices?.[0]?.message?.content ?? '').trim()\<close>\<close>

definition chatText :: "json \<Rightarrow> jserror + jsstring" where
  "chatText response =
     bindE (getMember response (js ''choices'')) (\<lambda>choices.
     bindE (optChain choices getFirst) (\<lambda>choice.
     bindE (optChain choice (\<lambda>v. getMember v (js ''message''))) (\<lambda>message.
     bindE (optChain message (\<lambda>v. getMember v (js ''content''))) (\<lambda>c.
     jsTrim (nullish c (JStr []))))))"

text \<open>The argument of \<^verbatim>\<open>openai.completions.create\<close>.\<close>

definition completionsRequest :: "jsstring \<Rightarrow> jsstring \<Rightarrow> json" where
  "completionsRequest model prompt =
     JObj [(js ''model'', JStr model), (js ''prompt'', JStr prompt),
           (js ''max_tokens'', JNum 50), (js ''temperature'', JNum (6 / 10))]"

text \<open>The argument of \<^verbatim>\<open>openai.chat.completions.create\<close>.\<close>

definition chatRequest :: "jsstring \<Rightarrow> jsstring \<Rightarrow> json" where
  "chatRequest model prompt =
     JObj [(js ''model'', JStr model),
           (js ''messages'',
            JArr [JObj [(js ''role'', JStr (js ''user'')), (js ''content'', JStr prompt)]]),
           (js ''temperature'', JNum (6 / 10)),
           (js ''max_completion_tokens'', JNum 50),
           (js ''reasoning_effort'', JStr (js ''minimal'')),
           (js ''verbosity'', JStr (js ''low'')),
           (js ''n'', JNum 1)]"

definition callOpenAI :: "env \<Rightarrow> settings \<Rightarrow> jsstring \<Rightarrow> world \<Rightarrow> (jserror + jsstring) \<times> world" where
  "callOpenAI en st prompt w =
     (let configured = trim (openAiModel st);
          model = (if configured = [] then js ''gpt-5-nano-2025-08-07'' else configured);
          w1 = (case openai w of
                  None \<Rightarrow> w\<lparr>openai := Some (openAiApiKey st)\<rparr>
                | Some client \<Rightarrow> w)
      in if useCompletionsEndpoint en model then
           (let request = completionsRequest model prompt;
                w2 = emit (CompletionsCreate request) w1
            in (case completionsCreate en w1 request of
                  Inl e \<Rightarrow> (Inl e, w2)
                | Inr response \<Rightarrow> (completionText response, w2)))
         else
           (let request = chatRequest model prompt;
                w2 = emit (ChatCompletionsCreate request) w1
            in (case chatCompletionsCreate en w1 request of
                  Inl e \<Rightarrow> (Inl e, w2)
                | Inr response \<Rightarrow> (chatText response, w2))))"

definition FIREWORKS_BASE_URL :: jsstring where
  "FIREWORKS_BASE_URL = js ''https://api.fireworks.ai/inference/v1''"

text \<open>
  The body of the \<^verbatim>\<open>try\<close> block of \<^verbatim>\<open>callFireworks\<close>:
  \<^verbatim>\<open>last?.content?.[0]?.text?.toString()?.trim() ?? ''\<close>
\<close>

definition lastOutputText :: "env \<Rightarrow> json \<Rightarrow> jserror + jsstring" where
  "lastOutputText en lastItem =
     bindE (optChain (Some lastItem) (\<lambda>v. getMember v (js ''content''))) (\<lambda>c.
     bindE (optChain c getFirst) (\<lambda>first.
     bindE (optChain first (\<lambda>v. getMember v (js ''text''))) (\<lambda>t.
       (case t of
          None \<Rightarrow> Inr []
        | Some JNull \<Rightarrow> Inr []
        | Some v \<Rightarrow> bindE (jsToString (numberToString en) v) (\<lambda>s. Inr (trim s))))))"

text \<open>
  What \<^verbatim>\<open>callFireworks\<close> does with the parsed body \<^verbatim>\<open>data\<close>. Only the descent
  into the \<^verbatim>\<open>output\<close> array stands inside \<^verbatim>\<open>try\<close>; an exception there leaves
  \<^verbatim>\<open>out\<close> as it was.
\<close>

definition extractOutput :: "env \<Rightarrow> json \<Rightarrow> jserror + jsstring" where
  "extractOutput en data =
     bindE (getMember data (js ''output_text'')) (\<lambda>outputText.
     bindE (jsToString (numberToString en) (nullish outputText (JStr []))) (\<lambda>s.
       (let out = trim s in
          if out \<noteq> [] then Inr out
          else bindE (getMember data (js ''output'')) (\<lambda>output.
            (case output of
               Some (JArr xs) \<Rightarrow>
                 (if length xs > 0 then
                    (case lastOutputText en (last xs) of
                       Inl e \<Rightarrow> Inr out
                     | Inr t \<Rightarrow> Inr t)
                  else Inr out)
             | _ \<Rightarrow> Inr out)))))"

text \<open>The object \<^verbatim>\<open>body\<close> of \<^verbatim>\<open>callFireworks\<close>, sent as \<^verbatim>\<open>JSON.stringify(body)\<close>.\<close>

definition fireworksBody :: "jsstring \<Rightarrow> jsstring \<Rightarrow> json" where
  "fireworksBody model prompt =
     JObj [(js ''model'', JStr model), (js ''input'', JStr prompt),
           (js ''max_output_tokens'', JNum 50),
           (js ''temperature'', JNum (6 / 10)),
           (js ''store'', JBool False)]"

definition callFireworks :: "env \<Rightarrow> settings \<Rightarrow> jsstring \<Rightarrow> world \<Rightarrow> (jserror + jsstring) \<times> world" where
  "callFireworks en st prompt w =
     (let model = trim (fireworksModel st) in
      if model = [] then (Inl (Error (js ''Fireworks model is required.'')), w)
      else
        (let apiKey = trim (fireworksApiKey st) in
         if apiKey = [] then (Inl (Error (js ''Fireworks API key is required.'')), w)
         else
           (let request = \<lparr>reqUrl = FIREWORKS_BASE_URL @ js ''/responses'',
                           reqMethod = js ''POST'',
                           reqHeaders = [(js ''Content-Type'', js ''application/json''),
                                         (js ''Authorization'', js ''Bearer '' @ apiKey)],
                           reqBody = fireworksBody model prompt\<rparr>;
                w1 = emit (Fetch request) w
            in (case fetch en w request of
                  Inl e \<Rightarrow> (Inl e, w1)
                | Inr res \<Rightarrow>
                    if \<not> resOk res then
                      (let txt = (case resText res of Inl e \<Rightarrow> [] | Inr t \<Rightarrow> t)
                       in (Inl (Error (js ''Fireworks API error '' @ showNat (resStatus res)
                                        @ js '': '' @ txt)), w1))
                    else
                      (case resJson res of
                         Inl e \<Rightarrow> (Inl e, w1)
                       | Inr data \<Rightarrow> (extractOutput en data, w1))))))"

section \<open>Paths\<close>

text \<open>
  \<^verbatim>\<open>path.parse\<close> of the package \<^verbatim>\<open>path-browserify\<close> (POSIX rules), of whose result
  the plugin reads \<^verbatim>\<open>dir\<close> and \<^verbatim>\<open>ext\<close>. Trailing slashes are dropped; the base is
  what follows the last slash and the directory what precedes it; the extension starts
  at the last dot of the base, unless that dot is the first character of the base or the
  base is \<^verbatim>\<open>..\<close>.
\<close>

record parsedPath =
  dir :: jsstring
  base :: jsstring
  ext :: jsstring
  name :: jsstring

definition isSlash :: "jschar \<Rightarrow> bool" where
  "isSlash c \<longleftrightarrow> c = 0x2F"

definition isDot :: "jschar \<Rightarrow> bool" where
  "isDot c \<longleftrightarrow> c = 0x2E"

text \<open>The part after the last character with \<open>P\<close>, and the part before that character.\<close>

definition afterLast :: "('a \<Rightarrow> bool) \<Rightarrow> 'a list \<Rightarrow> 'a list" where
  "afterLast P xs = rev (takeWhile (\<lambda>c. \<not> P c) (rev xs))"

definition beforeLast :: "('a \<Rightarrow> bool) \<Rightarrow> 'a list \<Rightarrow> 'a list option" where
  "beforeLast P xs =
     (case dropWhile (\<lambda>c. \<not> P c) (rev xs) of [] \<Rightarrow> None | c # ys \<Rightarrow> Some (rev ys))"

definition pathParse :: "jsstring \<Rightarrow> parsedPath" where
  "pathParse p =
     (if p = [] then \<lparr>dir = [], base = [], ext = [], name = []\<rparr>
      else
        (let isAbsolute = isSlash (hd p);
             r = dropTrailing isSlash (if isAbsolute then tl p else p);
             b = afterLast isSlash r;
             d = (case beforeLast isSlash r of
                    None \<Rightarrow> (if isAbsolute then js ''/'' else [])
                  | Some q \<Rightarrow> (if isAbsolute then js ''/'' @ q else q));
             noExt = (case beforeLast isDot b of
                        None \<Rightarrow> True
                      | Some n \<Rightarrow>
                          n = [] \<or>
                          (b = js ''..'' \<and> (beforeLast isSlash r \<noteq> None \<or> \<not> isAbsolute)))
         in if noExt then \<lparr>dir = d, base = b, ext = [], name = b\<rparr>
            else \<lparr>dir = d, base = b, ext = 0x2E # afterLast isDot b,
                  name = the (beforeLast isDot b)\<rparr>))"

text \<open>
  \<^verbatim>\<open>normalizePath\<close> of the host, as its documentation describes it: every run of
  slashes and backslashes becomes one slash, slashes at either end are removed (the
  empty path is \<^verbatim>\<open>/\<close>), the no-break spaces U+00A0 and U+202F become plain spaces, and
  the result is put in Unicode normal form C, which changes no ASCII string.
\<close>

definition isSeparator :: "jschar \<Rightarrow> bool" where
  "isSeparator c \<longleftrightarrow> c = 0x2F \<or> c = 0x5C"

function collapseSeparators :: "jsstring \<Rightarrow> jsstring" where
  "collapseSeparators [] = []"
| "collapseSeparators (c # cs) =
     (if isSeparator c then 0x2F # collapseSeparators (dropWhile isSeparator cs)
      else c # collapseSeparators cs)"
  by pat_completeness auto
termination
  by (relation "measure length") (auto simp: le_imp_less_Suc length_dropWhile_le)

definition normalizeNFC :: "env \<Rightarrow> jsstring \<Rightarrow> jsstring" where
  "normalizeNFC en s = (if list_all (\<lambda>c. c < 0x80) s then s else unicodeNFC en s)"

definition normalizePath :: "env \<Rightarrow> jsstring \<Rightarrow> jsstring" where
  "normalizePath en p =
     (let stripped = dropTrailing isSlash (dropWhile isSlash (collapseSeparators p));
          rooted = (if stripped = [] then js ''/'' else stripped);
          spaced = map (\<lambda>c. if c = 0xA0 \<or> c = 0x202F then 0x20 else c) rooted
      in normalizeNFC en spaced)"

section \<open>Title generation\<close>

text \<open>
  \<^verbatim>\<open>normalizePath(`${currentPath.dir}/${title}${currentPath.ext}`)\<close> with
  \<^verbatim>\<open>currentPath = path.parse(file.path)\<close>
\<close>

definition newPath :: "env \<Rightarrow> tfile \<Rightarrow> jsstring \<Rightarrow> jsstring" where
  "newPath en file title =
     (let currentPath = pathParse (path file)
      in normalizePath en (dir currentPath @ js ''/'' @ title @ ext currentPath))"

text \<open>The \<^verbatim>\<open>try\<close> block of \<^verbatim>\<open>generateTitle\<close>.\<close>

definition generateTitleTry :: "env \<Rightarrow> settings \<Rightarrow> tfile \<Rightarrow> jsstring \<Rightarrow> world \<Rightarrow> (jserror + unit) \<times> world" where
  "generateTitleTry en st file content w =
     (let prompt = renderPrompt st content;
          (raw, w1) =
            (if provider st = Fireworks then callFireworks en st prompt w
             else if openAiApiKey st = [] then
               (Inl (Error (js ''Please set your OpenAI API key in the settings.'')), w)
             else callOpenAI en st prompt w)
      in (case raw of
            Inl e \<Rightarrow> (Inl e, w1)
          | Inr rawText \<Rightarrow>
              (let title = removeInvalidFileNameChars (stripSurroundingQuotes rawText) in
               if title = [] then (Inl (Error (js ''Model returned an empty title.'')), w1)
               else
                 (let target = newPath en file title;
                      w2 = emit (RenameFile (path file) target) w1
                  in (case renameFile en w1 (path file) target of
                        Some e \<Rightarrow> (Inl e, w2)
                      | None \<Rightarrow> (Inr (), w2))))))"

text \<open>The \<^verbatim>\<open>catch\<close> block: \<^verbatim>\<open>console.error(err)\<close> and a \<^verbatim>\<open>Notice\<close> showing \<^verbatim>\<open>err\<close>.\<close>

definition generateTitleCatch :: "jserror \<Rightarrow> world \<Rightarrow> world" where
  "generateTitleCatch err w = emit (NoticeShown err) (emit (ConsoleError err) w)"

text \<open>
  \<^verbatim>\<open>generateTitle\<close>: the status item, then \<^verbatim>\<open>try\<close>, \<^verbatim>\<open>catch\<close> and \<^verbatim>\<open>finally\<close>.
  The first component is how the returned promise settles.
\<close>

definition generateTitle :: "env \<Rightarrow> settings \<Rightarrow> tfile \<Rightarrow> jsstring \<Rightarrow> world \<Rightarrow> (jserror + unit) \<times> world" where
  "generateTitle en st file content w =
     (let (loadingStatus, w1) = addStatusBarItem w;
          w2 = createEl loadingStatus (js ''Generating title...'') w1;
          (outcome, w3) = generateTitleTry en st file content w2;
          (settled, w4) = (case outcome of
                             Inl err \<Rightarrow> (Inr (), generateTitleCatch err w3)
                           | Inr u \<Rightarrow> (Inr u, w3))
      in (settled, removeItem loadingStatus w4))"

definition generateTitleFromFile :: "env \<Rightarrow> settings \<Rightarrow> tfile \<Rightarrow> world \<Rightarrow> (jserror + unit) \<times> world" where
  "generateTitleFromFile en st file w =
     (let w1 = emit (CachedRead (path file)) w
      in (case cachedRead en w (path file) of
            Inl e \<Rightarrow> (Inl e, w1)
          | Inr content \<Rightarrow> generateTitle en st file content w1))"

section \<open>Bulk dispatch\<close>

text \<open>
  \<^verbatim>\<open>pMap(items, mapper, {concurrency: 1})\<close> of the package \<^verbatim>\<open>p-map\<close>: with one
  mapper running at a time the items are mapped in order, each after the one before has
  settled; as \<^verbatim>\<open>stopOnError\<close> is left at its default, the first rejection of the
  mapper rejects the whole call and no further item is started.
\<close>

fun pMap :: "('a \<Rightarrow> world \<Rightarrow> (jserror + 'b) \<times> world) \<Rightarrow> 'a list \<Rightarrow> world \<Rightarrow> (jserror + 'b list) \<times> world" where
  "pMap mapper [] w = (Inr [], w)"
| "pMap mapper (x # xs) w =
     (case mapper x w of
        (Inl e, w1) \<Rightarrow> (Inl e, w1)
      | (Inr y, w1) \<Rightarrow>
          (case pMap mapper xs w1 of
             (Inl e, w2) \<Rightarrow> (Inl e, w2)
           | (Inr ys, w2) \<Rightarrow> (Inr (y # ys), w2)))"

text \<open>The click handler of the item `Generate titles', on the files of the selection.\<close>

definition generateTitles :: "env \<Rightarrow> settings \<Rightarrow> tfile list \<Rightarrow> world \<Rightarrow> (jserror + unit list) \<times> world" where
  "generateTitles en st tFiles w = pMap (generateTitleFromFile en st) tFiles w"

section \<open>Vocabulary of the claims\<close>

text \<open>
  The events the \<^verbatim>\<open>try\<close> block of \<^verbatim>\<open>generateTitle\<close> can add: a request to a
  provider or the rename. Then the events that are notices.
\<close>

fun isOutbound :: "event \<Rightarrow> bool" where
  "isOutbound (CompletionsCreate r) \<longleftrightarrow> True"
| "isOutbound (ChatCompletionsCreate r) \<longleftrightarrow> True"
| "isOutbound (Fetch r) \<longleftrightarrow> True"
| "isOutbound (RenameFile p q) \<longleftrightarrow> True"
| "isOutbound e \<longleftrightarrow> False"

fun isNotice :: "event \<Rightarrow> bool" where
  "isNotice (NoticeShown e) \<longleftrightarrow> True"
| "isNotice e \<longleftrightarrow> False"

text \<open>A request to the provider's network endpoints, through the SDK or \<^verbatim>\<open>fetch\<close>.\<close>

fun isNetworkCall :: "event \<Rightarrow> bool" where
  "isNetworkCall (CompletionsCreate r) \<longleftrightarrow> True"
| "isNetworkCall (ChatCompletionsCreate r) \<longleftrightarrow> True"
| "isNetworkCall (Fetch r) \<longleftrightarrow> True"
| "isNetworkCall e \<longleftrightarrow> False"

text \<open>An event that is not a \<^verbatim>\<open>fetch\<close>, or a \<^verbatim>\<open>fetch\<close> whose body says \<^verbatim>\<open>store: false\<close>.\<close>

fun noRetention :: "event \<Rightarrow> bool" where
  "noRetention (Fetch r) \<longleftrightarrow> getMember (reqBody r) (js ''store'') = Inr (Some (JBool False))"
| "noRetention e \<longleftrightarrow> True"

text \<open>The events a run has added to those of the world it started from.\<close>

definition added :: "world \<Rightarrow> world \<Rightarrow> event list" where
  "added w w' = drop (length (events w)) (events w')"

text \<open>The world in which the \<^verbatim>\<open>try\<close> block of \<^verbatim>\<open>generateTitle\<close> starts.\<close>

definition withStatusItem :: "world \<Rightarrow> world" where
  "withStatusItem w =
     createEl (fst (addStatusBarItem w)) (js ''Generating title...'') (snd (addStatusBarItem w))"

text \<open>
  For the bulk dispatch: the events that mark the life of one document's run, and what
  these are when the documents are handled one after the other, each run over before
  the next document is read.
\<close>

fun isLifecycle :: "event \<Rightarrow> bool" where
  "isLifecycle (CachedRead p) \<longleftrightarrow> True"
| "isLifecycle (StatusShown i t) \<longleftrightarrow> True"
| "isLifecycle (StatusRemoved i) \<longleftrightarrow> True"
| "isLifecycle e \<longleftrightarrow> False"

fun oneAtATime :: "nat \<Rightarrow> tfile list \<Rightarrow> event list" where
  "oneAtATime i [] = []"
| "oneAtATime i (f # fs) =
     [CachedRead (path f), StatusShown i (js ''Generating title...''), StatusRemoved i]
     @ oneAtATime (Suc i) fs"

text \<open>
  A world to run examples in: nothing has happened yet, every file reads as
  \<^verbatim>\<open>note text\<close>, both SDK endpoints and \<^verbatim>\<open>fetch\<close> answer with status 200 and the
  given parsed body, and every rename succeeds.
\<close>

definition emptyWorld :: world where
  "emptyWorld = \<lparr>statusBar = [], nextItem = 0, events = [], openai = None\<rparr>"

definition sampleEnv :: "json \<Rightarrow> env" where
  "sampleEnv body =
     \<lparr>cachedRead = (\<lambda>w p. Inr (js ''note text'')),
      completionsCreate = (\<lambda>w r. Inr body),
      chatCompletionsCreate = (\<lambda>w r. Inr body),
      fetch = (\<lambda>w r. Inr \<lparr>resOk = True, resStatus = 200, resText = Inr [], resJson = Inr body\<rparr>),
      renameFile = (\<lambda>w p q. None),
      numberToString = (\<lambda>r. []),
      lowerCaseNonAscii = (\<lambda>c. [c]),
      unicodeNFC = (\<lambda>s. s)\<rparr>"

definition fireworksSettings :: settings where
  "fireworksSettings =
     DEFAULT_SETTINGS\<lparr>provider := Fireworks, fireworksApiKey := js ''key'',
                      fireworksModel := js ''accounts/fireworks/models/llama-v3p1-8b-instruct'',
                      customPrompt := js ''Title for: {{content}}''\<rparr>"

text \<open>The same environment, but the file \<^verbatim>\<open>gone.md\<close> cannot be read.\<close>

definition unreadableEnv :: env where
  "unreadableEnv =
     (sampleEnv JNull)\<lparr>cachedRead :=
        (\<lambda>w p. if p = js ''gone.md'' then Inl (Error (js ''ENOENT: no such file or directory''))
               else Inr (js ''note text''))\<rparr>"

text \<open>
  What the host's \<^verbatim>\<open>normalizePath\<close> would rewrite in a path. A directory is plain when
  it has no backslash and no no-break space, and its slashes are single and neither first
  nor last; an extension is plain when it has no backslash and no no-break space.
\<close>

fun adjacentSeparators :: "jsstring \<Rightarrow> bool" where
  "adjacentSeparators (a # b # cs) \<longleftrightarrow>
     (isSeparator a \<and> isSeparator b) \<or> adjacentSeparators (b # cs)"
| "adjacentSeparators _ \<longleftrightarrow> False"

definition isPlainExt :: "jsstring \<Rightarrow> bool" where
  "isPlainExt x \<longleftrightarrow> list_all (\<lambda>c. c \<noteq> 0x5C \<and> c \<noteq> 0xA0 \<and> c \<noteq> 0x202F) x"

definition isPlainDir :: "jsstring \<Rightarrow> bool" where
  "isPlainDir d \<longleftrightarrow>
     (d = [] \<or> (\<not> isSlash (hd d) \<and> \<not> isSlash (last d))) \<and> \<not> adjacentSeparators d \<and>
     list_all (\<lambda>c. c \<noteq> 0x5C \<and> c \<noteq> 0xA0 \<and> c \<noteq> 0x202F) d"

text \<open>A directory and a file name put together; the directory of the vault's root is empty.\<close>

definition joinDir :: "jsstring \<Rightarrow> jsstring \<Rightarrow> jsstring" where
  "joinDir d b = (if d = [] then b else d @ js ''/'' @ b)"

text \<open>
  The sample environment with a normal form C that composes the letter \<^verbatim>\<open>e\<close> and a
  following combining acute accent U+0301 into U+00E9, as Unicode does.
\<close>

fun composeAcute :: "jsstring \<Rightarrow> jsstring" where
  "composeAcute (c # d # r) =
     (if c = 0x65 \<and> d = 0x301 then 0xE9 # composeAcute r else c # composeAcute (d # r))"
| "composeAcute r = r"

definition composingEnv :: env where
  "composingEnv = (sampleEnv JNull)\<lparr>unicodeNFC := composeAcute\<rparr>"

section \<open>Properties of the title sanitizer\<close>

lemma space_facts [simp]: "isWhiteSpace 0x20" "\<not> isInvalidFileNameChar 0x20"
  by (simp_all add: isWhiteSpace_def isInvalidFileNameChar_def)

lemma dropTrailing_take: "dropTrailing P xs = take (length xs - length (takeWhile P (rev xs))) xs"
  by (simp add: dropTrailing_def dropWhile_eq_drop rev_drop)

lemma dropTrailing_Nil [simp]: "dropTrailing P [] = []"
  by (simp add: dropTrailing_def)

lemma dropTrailing_last: "dropTrailing P xs \<noteq> [] \<Longrightarrow> \<not> P (last (dropTrailing P xs))"
  unfolding dropTrailing_def by (simp add: last_rev hd_dropWhile)

lemma dropTrailing_id: "xs = [] \<or> \<not> P (last xs) \<Longrightarrow> dropTrailing P xs = xs"
  unfolding dropTrailing_def by (cases xs rule: rev_cases) auto

lemma dropWhile_id: "xs = [] \<or> \<not> P (hd xs) \<Longrightarrow> dropWhile P xs = xs"
  by (cases xs) auto

lemma dropTrailing_hd: "dropTrailing P xs \<noteq> [] \<Longrightarrow> hd (dropTrailing P xs) = hd xs"
  by (simp add: dropTrailing_take)

lemma set_dropTrailing: "set (dropTrailing P xs) \<subseteq> set xs"
  by (simp add: dropTrailing_take set_take_subset)

lemma adjacent_appendI1: "adjacentWhiteSpace a \<Longrightarrow> adjacentWhiteSpace (a @ b)"
  by (induction a rule: adjacentWhiteSpace.induct) auto

lemma adjacent_appendI2: "adjacentWhiteSpace b \<Longrightarrow> adjacentWhiteSpace (a @ b)"
proof (induction a)
  case Nil then show ?case by simp
next
  case (Cons x a)
  then show ?case by (cases "a @ b") auto
qed

lemma adjacent_take: "\<not> adjacentWhiteSpace s \<Longrightarrow> \<not> adjacentWhiteSpace (take n s)"
  using adjacent_appendI1 [of "take n s" "drop n s"] by auto

lemma adjacent_drop: "\<not> adjacentWhiteSpace s \<Longrightarrow> \<not> adjacentWhiteSpace (drop n s)"
  using adjacent_appendI2 [of "drop n s" "take n s"] by auto

lemma clean_dropWhile: "clean s \<Longrightarrow> clean (dropWhile P s)"
  unfolding clean_def using set_dropWhileD [of _ P s]
  by (auto simp: dropWhile_eq_drop [of P s] adjacent_drop simp del: )

lemma clean_dropTrailing: "clean s \<Longrightarrow> clean (dropTrailing P s)"
  unfolding clean_def using set_dropTrailing [of P s]
  by (auto simp: dropTrailing_take [of P s] adjacent_take dest: in_set_takeD)

lemma collapse_hd_nonws:
  "s \<noteq> [] \<Longrightarrow> \<not> isWhiteSpace (hd s) \<Longrightarrow> collapseWhiteSpace s \<noteq> [] \<and> hd (collapseWhiteSpace s) = hd s"
  by (cases s) auto

lemma clean_collapse_aux:
  "\<forall>c\<in>set s. \<not> isInvalidFileNameChar c \<Longrightarrow>
   (\<forall>c\<in>set (collapseWhiteSpace s). \<not> isInvalidFileNameChar c \<and> (isWhiteSpace c \<longrightarrow> c = 0x20))
   \<and> \<not> adjacentWhiteSpace (collapseWhiteSpace s)"
proof (induction s rule: collapseWhiteSpace.induct)
  case 1
  then show ?case by simp
next
  case (2 c cs)
  show ?case
  proof (cases "isWhiteSpace c")
    case True
    let ?r = "dropWhile isWhiteSpace cs"
    have inv: "\<forall>c\<in>set ?r. \<not> isInvalidFileNameChar c"
      using "2.prems" by (auto dest: set_dropWhileD)
    note IH = "2.IH"(1) [OF True inv]
    have hd: "collapseWhiteSpace ?r = [] \<or> \<not> isWhiteSpace (hd (collapseWhiteSpace ?r))"
    proof (cases ?r)
      case Nil
      then have "collapseWhiteSpace ?r = []" by (simp only: collapseWhiteSpace.simps)
      then show ?thesis ..
    next
      case (Cons d ds)
      then have "\<not> isWhiteSpace d" using hd_dropWhile [of isWhiteSpace cs] by auto
      then show ?thesis using Cons by simp
    qed
    have "\<not> adjacentWhiteSpace (0x20 # collapseWhiteSpace ?r)"
      using IH hd by (cases "collapseWhiteSpace ?r") auto
    then show ?thesis using True IH by simp
  next
    case False
    have inv: "\<forall>c\<in>set cs. \<not> isInvalidFileNameChar c" using "2.prems" by simp
    note IH = "2.IH"(2) [OF False inv]
    have "\<not> adjacentWhiteSpace (c # collapseWhiteSpace cs)"
      using IH False by (cases "collapseWhiteSpace cs") auto
    then show ?thesis using False IH "2.prems" by simp
  qed
qed

lemma replaceInvalid_valid: "\<forall>c\<in>set (replaceInvalid s). \<not> isInvalidFileNameChar c"
  by (auto simp: replaceInvalid_def)

lemma clean_collapse_replace: "clean (collapseWhiteSpace (replaceInvalid s))"
  unfolding clean_def using clean_collapse_aux [OF replaceInvalid_valid] by blast

lemma replaceInvalid_id: "\<forall>c\<in>set s. \<not> isInvalidFileNameChar c \<Longrightarrow> replaceInvalid s = s"
  by (simp add: replaceInvalid_def map_idI)

lemma collapse_id:
  "\<forall>c\<in>set s. isWhiteSpace c \<longrightarrow> c = 0x20 \<Longrightarrow> \<not> adjacentWhiteSpace s \<Longrightarrow> collapseWhiteSpace s = s"
proof (induction s rule: collapseWhiteSpace.induct)
  case 1
  then show ?case by simp
next
  case (2 c cs)
  show ?case
  proof (cases "isWhiteSpace c")
    case True
    have nh: "cs = [] \<or> \<not> isWhiteSpace (hd cs)" using "2.prems"(2) True by (cases cs) auto
    have dw: "dropWhile isWhiteSpace cs = cs" using nh by (rule dropWhile_id)
    have "\<not> adjacentWhiteSpace cs" using "2.prems"(2) by (cases cs) auto
    then have "collapseWhiteSpace cs = cs" using "2.IH"(1) [OF True] "2.prems"(1) dw by simp
    then show ?thesis using True dw "2.prems"(1) by simp
  next
    case False
    have "\<not> adjacentWhiteSpace cs" using "2.prems"(2) by (cases cs) auto
    then have "collapseWhiteSpace cs = cs" using "2.IH"(2) [OF False] "2.prems"(1) by simp
    then show ?thesis using False by simp
  qed
qed

lemma clean_removeInvalid: "clean (removeInvalidFileNameChars s)"
  unfolding removeInvalidFileNameChars_def trim_def
  by (intro clean_dropTrailing clean_dropWhile clean_collapse_replace)

lemma trim_ends:
  "trim s \<noteq> [] \<Longrightarrow> \<not> isWhiteSpace (hd (trim s)) \<and> \<not> isWhiteSpace (last (trim s))"
proof -
  assume ne: "trim s \<noteq> []"
  have ne': "dropWhile isWhiteSpace s \<noteq> []"
  proof
    assume "dropWhile isWhiteSpace s = []"
    then have "trim s = []" by (simp only: trim_def dropTrailing_Nil)
    with ne show False by simp
  qed
  have "hd (trim s) = hd (dropWhile isWhiteSpace s)"
    using ne unfolding trim_def by (rule dropTrailing_hd)
  moreover have "\<not> isWhiteSpace (hd (dropWhile isWhiteSpace s))"
    using ne' by (rule hd_dropWhile)
  moreover have "\<not> isWhiteSpace (last (trim s))"
    using ne unfolding trim_def by (rule dropTrailing_last)
  ultimately show ?thesis by simp
qed

lemma trim_id: "s = [] \<or> (\<not> isWhiteSpace (hd s) \<and> \<not> isWhiteSpace (last s)) \<Longrightarrow> trim s = s"
  unfolding trim_def by (auto simp: dropWhile_id dropTrailing_id)

lemma removeInvalid_id:
  assumes "clean s" "s = [] \<or> (\<not> isWhiteSpace (hd s) \<and> \<not> isWhiteSpace (last s))"
  shows "removeInvalidFileNameChars s = s"
proof -
  have "replaceInvalid s = s" using assms(1) by (simp add: clean_def replaceInvalid_id)
  moreover have "collapseWhiteSpace s = s" using assms(1) by (simp add: clean_def collapse_id)
  ultimately show ?thesis using assms(2) by (simp add: removeInvalidFileNameChars_def trim_id)
qed

lemma strip_ends:
  "stripSurroundingQuotes s \<noteq> [] \<Longrightarrow>
     \<not> isStripChar (hd (stripSurroundingQuotes s)) \<and> \<not> isStripChar (last (stripSurroundingQuotes s))"
proof -
  assume ne: "stripSurroundingQuotes s \<noteq> []"
  have ne': "dropWhile isStripChar s \<noteq> []"
  proof
    assume "dropWhile isStripChar s = []"
    then have "stripSurroundingQuotes s = []"
      by (simp only: stripSurroundingQuotes_def dropTrailing_Nil)
    with ne show False by simp
  qed
  have "hd (stripSurroundingQuotes s) = hd (dropWhile isStripChar s)"
    using ne unfolding stripSurroundingQuotes_def by (rule dropTrailing_hd)
  moreover have "\<not> isStripChar (hd (dropWhile isStripChar s))"
    using ne' by (rule hd_dropWhile)
  moreover have "\<not> isStripChar (last (stripSurroundingQuotes s))"
    using ne unfolding stripSurroundingQuotes_def by (rule dropTrailing_last)
  ultimately show ?thesis by simp
qed

lemma clean_strip: "clean s \<Longrightarrow> clean (stripSurroundingQuotes s)"
  unfolding stripSurroundingQuotes_def by (intro clean_dropTrailing clean_dropWhile)

lemma sanitize_twice: "sanitize (sanitize x) = stripSurroundingQuotes (sanitize x)"
proof -
  let ?z = "stripSurroundingQuotes (sanitize x)"
  have "clean (sanitize x)" by (simp add: sanitize_def clean_removeInvalid)
  then have "clean ?z" by (rule clean_strip)
  moreover have "?z = [] \<or> (\<not> isWhiteSpace (hd ?z) \<and> \<not> isWhiteSpace (last ?z))"
    using strip_ends [of "sanitize x"] by (auto simp: isStripChar_def)
  ultimately have "removeInvalidFileNameChars ?z = ?z" by (rule removeInvalid_id)
  then show ?thesis by (simp add: sanitize_def)
qed

lemma strip_id:
  "s = [] \<or> (\<not> isStripChar (hd s) \<and> \<not> isStripChar (last s)) \<Longrightarrow> stripSurroundingQuotes s = s"
  unfolding stripSurroundingQuotes_def by (auto simp: dropWhile_id dropTrailing_id)

lemma sanitize_ends:
  "sanitize x \<noteq> [] \<Longrightarrow> \<not> isWhiteSpace (hd (sanitize x)) \<and> \<not> isWhiteSpace (last (sanitize x))"
  unfolding sanitize_def removeInvalidFileNameChars_def by (rule trim_ends)

section \<open>Properties of the template renderer\<close>

lemma js_lits:
  "js ''{{'' = [0x7B, 0x7B]" "js ''}}'' = [0x7D, 0x7D]"
  "js ''content'' = [0x63, 0x6F, 0x6E, 0x74, 0x65, 0x6E, 0x74]"
  "js ''CONTENT'' = [0x43, 0x4F, 0x4E, 0x54, 0x45, 0x4E, 0x54]"
  by (simp_all add: js_def)

lemma canon_lits:
  "map canonicalize (js ''{{'') = [0x7B, 0x7B]" "map canonicalize (js ''}}'') = [0x7D, 0x7D]"
  "map canonicalize (js ''content'') = [0x43, 0x4F, 0x4E, 0x54, 0x45, 0x4E, 0x54]"
  by (simp_all add: js_lits canonicalize_def)

lemma canonicalize_eq_iff:
  "canonicalize c = d \<longleftrightarrow> (if 0x61 \<le> c \<and> c \<le> 0x7A then c = d + 0x20 else c = d)"
  by (auto simp: canonicalize_def diff_eq_eq)

lemma canon_brace: "canonicalize c = 0x7B \<longleftrightarrow> c = 0x7B" "canonicalize c = 0x7D \<longleftrightarrow> c = 0x7D"
  by (auto simp: canonicalize_eq_iff)

lemma canon_C: "canonicalize c = 0x43 \<longleftrightarrow> c = 0x43 \<or> c = 0x63"
  by (auto simp: canonicalize_eq_iff)

lemma ws_not_C: "isWhiteSpace c \<Longrightarrow> canonicalize c \<noteq> 0x43" "isWhiteSpace c \<Longrightarrow> canonicalize c \<noteq> 0x7D"
  by (auto simp: canon_C canon_brace isWhiteSpace_def)

lemma canon_hd: "map canonicalize k = x # xs \<Longrightarrow> k \<noteq> [] \<and> canonicalize (hd k) = x"
  by (cases k) auto

lemma matchLiteral_SomeD:
  "matchLiteral p s = Some r \<Longrightarrow>
     \<exists>k. s = k @ r \<and> length k = length p \<and> map canonicalize k = map canonicalize p"
proof (induction p s rule: matchLiteral.induct)
  case (3 p ps c cs)
  then have c: "canonicalize c = canonicalize p" and m: "matchLiteral ps cs = Some r"
    by (auto split: if_splits)
  from "3.IH" [OF c m] obtain k where
    "cs = k @ r" "length k = length ps" "map canonicalize k = map canonicalize ps" by blast
  then show ?case using c by (intro exI [of _ "c # k"]) simp
qed auto

lemma matchLiteral_append:
  "length k = length p \<Longrightarrow> map canonicalize k = map canonicalize p \<Longrightarrow>
     matchLiteral p (k @ r) = Some r"
  by (induction k p rule: list_induct2) auto

lemma dropWhile_ws_block:
  assumes "\<forall>c\<in>set w. isWhiteSpace c" "k \<noteq> []" "\<not> isWhiteSpace (hd k)"
  shows "dropWhile isWhiteSpace (w @ k @ r) = k @ r"
proof -
  have "dropWhile isWhiteSpace (w @ k @ r) = dropWhile isWhiteSpace (k @ r)"
    using assms(1) by (simp add: dropWhile_append2)
  also have "\<dots> = k @ r" using assms(2,3) by (cases k) auto
  finally show ?thesis .
qed

lemma matchPlaceholder_parts:
  assumes "placeholderParts b1 w1 k w2 b2"
  shows "matchPlaceholder (b1 @ w1 @ k @ w2 @ b2 @ r) = Some (length (b1 @ w1 @ k @ w2 @ b2))"
proof -
  from assms have b1: "length b1 = length (js ''{{'')" "map canonicalize b1 = map canonicalize (js ''{{'')"
    and w1: "\<forall>c\<in>set w1. isWhiteSpace c"
    and k: "length k = length (js ''content'')" "map canonicalize k = map canonicalize (js ''content'')"
    and w2: "\<forall>c\<in>set w2. isWhiteSpace c"
    and b2: "length b2 = length (js ''}}'')" "map canonicalize b2 = map canonicalize (js ''}}'')"
    unfolding placeholderParts_def by blast+
  have "k \<noteq> [] \<and> canonicalize (hd k) = 0x43"
    using k(2) unfolding canon_lits by (rule canon_hd)
  then have kne: "k \<noteq> []" "\<not> isWhiteSpace (hd k)"
    using ws_not_C(1) [of "hd k"] by blast+
  have "b2 \<noteq> [] \<and> canonicalize (hd b2) = 0x7D"
    using b2(2) unfolding canon_lits by (rule canon_hd)
  then have bne: "b2 \<noteq> []" "\<not> isWhiteSpace (hd b2)"
    using ws_not_C(2) [of "hd b2"] by blast+
  have 1: "matchLiteral (js ''{{'') (b1 @ w1 @ k @ w2 @ b2 @ r) = Some (w1 @ k @ w2 @ b2 @ r)"
    using b1 by (rule matchLiteral_append)
  have 2: "dropWhile isWhiteSpace (w1 @ k @ w2 @ b2 @ r) = k @ w2 @ b2 @ r"
    using w1 kne by (rule dropWhile_ws_block)
  have 3: "matchLiteral (js ''content'') (k @ w2 @ b2 @ r) = Some (w2 @ b2 @ r)"
    using k by (rule matchLiteral_append)
  have 4: "dropWhile isWhiteSpace (w2 @ b2 @ r) = b2 @ r"
    using w2 bne by (rule dropWhile_ws_block)
  have 5: "matchLiteral (js ''}}'') (b2 @ r) = Some r"
    using b2 by (rule matchLiteral_append)
  show ?thesis
    unfolding matchPlaceholder_def by (simp only: 1 2 3 4 5 option.simps length_append)
qed

lemma matchPlaceholder_SomeD:
  assumes "matchPlaceholder s = Some n"
  shows "\<exists>b1 w1 k w2 b2 r. s = b1 @ w1 @ k @ w2 @ b2 @ r \<and> placeholderParts b1 w1 k w2 b2
           \<and> n = length (b1 @ w1 @ k @ w2 @ b2)"
proof -
  from assms obtain r1 r2 r3 where
    1: "matchLiteral (js ''{{'') s = Some r1" and
    2: "matchLiteral (js ''content'') (dropWhile isWhiteSpace r1) = Some r2" and
    3: "matchLiteral (js ''}}'') (dropWhile isWhiteSpace r2) = Some r3" and
    n: "n = length s - length r3"
    by (auto simp: matchPlaceholder_def split: option.splits)
  from matchLiteral_SomeD [OF 1] obtain b1 where
    b1: "s = b1 @ r1" "length b1 = length (js ''{{'')" "map canonicalize b1 = map canonicalize (js ''{{'')"
    by blast
  from matchLiteral_SomeD [OF 2] obtain k where
    k: "dropWhile isWhiteSpace r1 = k @ r2" "length k = length (js ''content'')"
       "map canonicalize k = map canonicalize (js ''content'')"
    by blast
  from matchLiteral_SomeD [OF 3] obtain b2 where
    b2: "dropWhile isWhiteSpace r2 = b2 @ r3" "length b2 = length (js ''}}'')"
       "map canonicalize b2 = map canonicalize (js ''}}'')"
    by blast
  let ?w1 = "takeWhile isWhiteSpace r1" and ?w2 = "takeWhile isWhiteSpace r2"
  have r1: "r1 = ?w1 @ k @ r2" using k(1) takeWhile_dropWhile_id [of isWhiteSpace r1] by simp
  have r2: "r2 = ?w2 @ b2 @ r3" using b2(1) takeWhile_dropWhile_id [of isWhiteSpace r2] by simp
  have s: "s = b1 @ ?w1 @ k @ ?w2 @ b2 @ r3" using b1(1) r1 r2 by metis
  have parts: "placeholderParts b1 ?w1 k ?w2 b2"
    unfolding placeholderParts_def using b1(2,3) k(2,3) b2(2,3)
    by (auto dest: set_takeWhileD)
  have "n = length (b1 @ ?w1 @ k @ ?w2 @ b2)"
    unfolding n by (subst s) simp
  with s parts show ?thesis by blast
qed

lemma matchPlaceholder_prefix:
  assumes "matchPlaceholder s = Some n"
  shows "0 < n" "n \<le> length s" "isPlaceholder (take n s)" "matchPlaceholder (take n s @ r) = Some n"
proof -
  from matchPlaceholder_SomeD [OF assms] obtain b1 w1 k w2 b2 r' where
    s: "s = b1 @ w1 @ k @ w2 @ b2 @ r'" and p: "placeholderParts b1 w1 k w2 b2"
    and n: "n = length (b1 @ w1 @ k @ w2 @ b2)" by blast
  have t: "take n s = b1 @ w1 @ k @ w2 @ b2" unfolding n s by simp
  show "0 < n" using p n by (simp add: placeholderParts_def js_lits(1))
  show "n \<le> length s" unfolding n s by simp
  show "isPlaceholder (take n s)"
    unfolding isPlaceholder_def t using matchPlaceholder_parts [OF p, of "[]"] by simp
  show "matchPlaceholder (take n s @ r) = Some n"
    unfolding t using matchPlaceholder_parts [OF p, of r] n by simp
qed

lemma isPlaceholder_append: "isPlaceholder m \<Longrightarrow> matchPlaceholder (m @ r) = Some (length m)"
  using matchPlaceholder_prefix(4) [of m "length m" r] by (simp add: isPlaceholder_def)

lemma two_elems: "length b = 2 \<Longrightarrow> \<exists>x y. b = [x, y]"
  by (cases b; cases "tl b") auto

lemma isPlaceholder_chars:
  assumes "isPlaceholder m"
  shows "m \<noteq> []" "hd m = 0x7B" "last m = 0x7D" "\<forall>c\<in>set m. isPlaceholderChar c"
proof -
  from assms have mm: "matchPlaceholder m = Some (length m)" by (simp add: isPlaceholder_def)
  from matchPlaceholder_SomeD [OF mm] obtain b1 w1 k w2 b2 r' where
    s: "m = b1 @ w1 @ k @ w2 @ b2 @ r'" and p: "placeholderParts b1 w1 k w2 b2"
    and n: "length m = length (b1 @ w1 @ k @ w2 @ b2)" by blast
  have r': "r' = []" using n by (subst (asm) s) simp
  from p have "length b1 = 2" "length b2 = 2" by (simp_all add: placeholderParts_def js_lits(1,2))
  then obtain x y x' y' where b: "b1 = [x, y]" "b2 = [x', y']" using two_elems by blast
  with p have b1: "b1 = [0x7B, 0x7B]" and b2: "b2 = [0x7D, 0x7D]"
    by (simp_all add: placeholderParts_def canon_lits canon_brace)
  have m: "m = [0x7B, 0x7B] @ w1 @ k @ w2 @ [0x7D, 0x7D]" using s r' b1 b2 by simp
  show "m \<noteq> []" "hd m = 0x7B" "last m = 0x7D" by (subst m, simp)+
  have "\<forall>c\<in>set k. canonicalize c \<in> set (js ''CONTENT'')"
  proof
    fix c assume "c \<in> set k"
    then have "canonicalize c \<in> set (map canonicalize k)" by simp
    also have "map canonicalize k = js ''CONTENT''"
      using p by (simp add: placeholderParts_def canon_lits js_lits(4))
    finally show "canonicalize c \<in> set (js ''CONTENT'')" .
  qed
  then show "\<forall>c\<in>set m. isPlaceholderChar c"
    using p by (subst m) (auto simp: isPlaceholderChar_def placeholderParts_def)
qed


lemma hasPlaceholder_decomp:
  "hasPlaceholder s \<Longrightarrow> \<exists>x m y. s = x @ m @ y \<and> isPlaceholder m"
proof (induction s)
  case Nil
  then show ?case by simp
next
  case (Cons c cs)
  show ?case
  proof (cases "matchPlaceholder (c # cs)")
    case None
    with Cons.prems have "hasPlaceholder cs" by simp
    from Cons.IH [OF this] obtain x m y where "cs = x @ m @ y" "isPlaceholder m" by blast
    then have "c # cs = (c # x) @ m @ y \<and> isPlaceholder m" by simp
    then show ?thesis by blast
  next
    case (Some n)
    have "c # cs = [] @ take n (c # cs) @ drop n (c # cs)" by simp
    moreover have "isPlaceholder (take n (c # cs))" using Some by (rule matchPlaceholder_prefix(3))
    ultimately show ?thesis by blast
  qed
qed

lemma hasPlaceholder_compose: "isPlaceholder m \<Longrightarrow> hasPlaceholder (x @ m @ y)"
proof (induction x)
  case Nil
  have "m \<noteq> []" using Nil by (rule isPlaceholder_chars(1))
  then obtain c cs where m: "m = c # cs" by (cases m) auto
  have "matchPlaceholder (m @ y) = Some (length m)" using Nil by (rule isPlaceholder_append)
  then show ?case unfolding m by simp
next
  case (Cons a x)
  then show ?case by simp
qed

lemma hasPlaceholder_iff:
  "hasPlaceholder s \<longleftrightarrow> (\<exists>x m y. s = x @ m @ y \<and> isPlaceholder m)"
  using hasPlaceholder_decomp hasPlaceholder_compose by blast














section \<open>Properties of the provider clients and of one run\<close>

lemma emit_simps [simp]:
  "events (emit e w) = events w @ [e]" "statusBar (emit e w) = statusBar w"
  "nextItem (emit e w) = nextItem w" "openai (emit e w) = openai w"
  by (simp_all add: emit_def)

lemma added_append [simp]: "events w' = events w @ xs \<Longrightarrow> added w w' = xs"
  by (simp add: added_def)

lemma store_false:
  "getMember (fireworksBody model prompt) (js ''store'') = Inr (Some (JBool False))"
  by (simp add: fireworksBody_def js_def)

lemma chatRequest_model: "getMember (chatRequest model prompt) (js ''model'') = Inr (Some (JStr model))"
  by (simp add: chatRequest_def js_def)

lemma callFireworks_frame:
  "statusBar (snd (callFireworks en st prompt w)) = statusBar w \<and>
   nextItem (snd (callFireworks en st prompt w)) = nextItem w \<and>
   (\<exists>xs. events (snd (callFireworks en st prompt w)) = events w @ xs \<and>
         list_all isOutbound xs \<and> list_all noRetention xs)"
  unfolding callFireworks_def Let_def
  by (simp add: store_false split: sum.split)

lemma callOpenAI_frame:
  "statusBar (snd (callOpenAI en st prompt w)) = statusBar w \<and>
   nextItem (snd (callOpenAI en st prompt w)) = nextItem w \<and>
   (\<exists>xs. events (snd (callOpenAI en st prompt w)) = events w @ xs \<and>
         list_all isOutbound xs \<and> list_all noRetention xs)"
  unfolding callOpenAI_def Let_def
  by (simp split: sum.split option.split)

lemma generateTitleTry_frame:
  "statusBar (snd (generateTitleTry en st file content w)) = statusBar w \<and>
   nextItem (snd (generateTitleTry en st file content w)) = nextItem w \<and>
   (\<exists>xs. events (snd (generateTitleTry en st file content w)) = events w @ xs \<and>
         list_all isOutbound xs \<and> list_all noRetention xs)"
proof -
  let ?prompt = "renderPrompt st content"
  let ?call = "if provider st = Fireworks then callFireworks en st ?prompt w
               else if openAiApiKey st = [] then
                 (Inl (Error (js ''Please set your OpenAI API key in the settings.'')), w)
               else callOpenAI en st ?prompt w"
  obtain raw w1 where c: "?call = (raw, w1)" by (cases ?call)
  have f: "statusBar w1 = statusBar w \<and> nextItem w1 = nextItem w \<and>
           (\<exists>xs. events w1 = events w @ xs \<and> list_all isOutbound xs \<and> list_all noRetention xs)"
    using callFireworks_frame [of en st ?prompt w] callOpenAI_frame [of en st ?prompt w] c
    by (auto split: if_splits)
  then obtain xs where xs: "events w1 = events w @ xs" "list_all isOutbound xs" "list_all noRetention xs"
    by blast
  show ?thesis
    unfolding generateTitleTry_def Let_def c
    using f xs by (auto split: sum.split option.split)
qed

lemma generateTitle_settles: "fst (generateTitle en st file content w) = Inr ()"
  unfolding generateTitle_def Let_def
  by (auto split: prod.split sum.split)

lemma generateTitle_shape:
  assumes "generateTitleTry en st file content (withStatusItem w) = (outcome, w3)"
  shows "generateTitle en st file content w =
           (Inr (),
            removeItem (nextItem w)
              (case outcome of Inl err \<Rightarrow> generateTitleCatch err w3 | Inr u \<Rightarrow> w3))"
  using assms unfolding generateTitle_def withStatusItem_def addStatusBarItem_def Let_def
  by (auto split: sum.split)

lemma outbound_no_notice: "list_all isOutbound xs \<Longrightarrow> filter isNotice xs = []"
proof (induction xs)
  case Nil
  then show ?case by simp
next
  case (Cons e xs)
  then show ?case by (cases e) auto
qed

lemma withStatusItem_simps:
  "events (withStatusItem w) = events w @ [StatusShown (nextItem w) (js ''Generating title...'')]"
  "statusBar (withStatusItem w) = statusBar w @ [nextItem w]"
  "nextItem (withStatusItem w) = Suc (nextItem w)"
  by (simp_all add: withStatusItem_def addStatusBarItem_def createEl_def)

lemma removeItem_simps:
  "events (removeItem i w) = events w @ [StatusRemoved i]"
  "statusBar (removeItem i w) = removeAll i (statusBar w)"
  "nextItem (removeItem i w) = nextItem w"
  by (simp_all add: removeItem_def)

lemma generateTitleCatch_simps:
  "events (generateTitleCatch e w) = events w @ [ConsoleError e, NoticeShown e]"
  "statusBar (generateTitleCatch e w) = statusBar w"
  "nextItem (generateTitleCatch e w) = nextItem w"
  by (simp_all add: generateTitleCatch_def)

text \<open>What one run of generateTitle leaves behind, in terms of its try block.\<close>

lemma generateTitle_run:
  assumes t: "generateTitleTry en st file content (withStatusItem w) = (outcome, w3)"
  shows "\<exists>xs. list_all isOutbound xs \<and> list_all noRetention xs \<and>
           events w3 = events w @ [StatusShown (nextItem w) (js ''Generating title...'')] @ xs \<and>
           fst (generateTitle en st file content w) = Inr () \<and>
           events (snd (generateTitle en st file content w)) =
             events w @ [StatusShown (nextItem w) (js ''Generating title...'')] @ xs @
             (case outcome of Inl e \<Rightarrow> [ConsoleError e, NoticeShown e] | Inr u \<Rightarrow> []) @
             [StatusRemoved (nextItem w)] \<and>
           statusBar (snd (generateTitle en st file content w)) = removeAll (nextItem w) (statusBar w) \<and>
           nextItem (snd (generateTitle en st file content w)) = Suc (nextItem w)"
proof -
  from generateTitleTry_frame [of en st "file" content "withStatusItem w"] t
  obtain xs where f: "statusBar w3 = statusBar (withStatusItem w)"
      "nextItem w3 = nextItem (withStatusItem w)"
      "events w3 = events (withStatusItem w) @ xs" "list_all isOutbound xs" "list_all noRetention xs"
    by auto
  show ?thesis
    unfolding generateTitle_shape [OF t]
    using f
    by (intro exI [of _ xs])
       (cases outcome; simp add: withStatusItem_simps removeItem_simps generateTitleCatch_simps)
qed

lemma not_completions_default:
  "\<not> useCompletionsEndpoint en (js ''gpt-5-nano-2025-08-07'')"
  by (simp add: useCompletionsEndpoint_def toLowerCase_def js_def)

lemma callFireworks_request:
  "trim (fireworksModel st) \<noteq> [] \<Longrightarrow> trim (fireworksApiKey st) \<noteq> [] \<Longrightarrow>
   \<exists>request. added w (snd (callFireworks en st prompt w)) = [Fetch request] \<and>
     getMember (reqBody request) (js ''store'') = Inr (Some (JBool False))"
  unfolding callFireworks_def Let_def
  by (simp add: store_false added_def split: sum.split)

lemma outbound_no_lifecycle: "list_all isOutbound xs \<Longrightarrow> filter isLifecycle xs = []"
proof (induction xs)
  case Nil
  then show ?case by simp
next
  case (Cons e xs)
  then show ?case by (cases e) auto
qed

text \<open>
  The guarded half of the extraction: when the body has no \<^verbatim>\<open>output_text\<close>, whatever
  else it holds, \<^verbatim>\<open>callFireworks\<close> gets a string and no exception.
\<close>

lemma extractOutput_without_output_text:
  "getMember data (js ''output_text'') = Inr None \<Longrightarrow> \<exists>s. extractOutput en data = Inr s"
proof -
  assume a: "getMember data (js ''output_text'') = Inr None"
  then have "data \<noteq> JNull" by auto
  then obtain v where o: "getMember data (js ''output'') = Inr v" by (cases data) auto
  have t: "trim [] = []" by (simp add: trim_def dropTrailing_def)
  show ?thesis
    unfolding extractOutput_def a o
    by (simp add: bindE_def nullish_def t split: option.split json.split sum.split)
qed

section \<open>Properties of the bulk dispatch\<close>

lemma generateTitleFromFile_read:
  assumes r: "cachedRead en w (path f) = Inr c"
  shows "fst (generateTitleFromFile en st f w) = Inr () \<and>
         nextItem (snd (generateTitleFromFile en st f w)) = Suc (nextItem w) \<and>
         (\<exists>ys. events (snd (generateTitleFromFile en st f w)) = events w @ ys \<and>
               filter isLifecycle ys =
                 [CachedRead (path f), StatusShown (nextItem w) (js ''Generating title...''),
                  StatusRemoved (nextItem w)])"
proof -
  let ?w1 = "emit (CachedRead (path f)) w"
  have g: "generateTitleFromFile en st f w = generateTitle en st f c ?w1"
    unfolding generateTitleFromFile_def Let_def r by simp
  obtain outcome w3 where t: "generateTitleTry en st f c (withStatusItem ?w1) = (outcome, w3)"
    by (cases "generateTitleTry en st f c (withStatusItem ?w1)")
  from generateTitle_run [OF t] obtain xs where
    c: "list_all isOutbound xs" and
    s: "fst (generateTitle en st f c ?w1) = Inr ()" and
    e: "events (snd (generateTitle en st f c ?w1)) =
          events ?w1 @ [StatusShown (nextItem ?w1) (js ''Generating title...'')] @ xs @
          (case outcome of Inl e \<Rightarrow> [ConsoleError e, NoticeShown e] | Inr u \<Rightarrow> []) @
          [StatusRemoved (nextItem ?w1)]" and
    n: "nextItem (snd (generateTitle en st f c ?w1)) = Suc (nextItem ?w1)"
    by blast
  let ?ys = "[CachedRead (path f), StatusShown (nextItem w) (js ''Generating title...'')] @ xs @
          (case outcome of Inl e \<Rightarrow> [ConsoleError e, NoticeShown e] | Inr u \<Rightarrow> []) @
          [StatusRemoved (nextItem w)]"
  have "events (snd (generateTitleFromFile en st f w)) = events w @ ?ys"
    unfolding g e by simp
  moreover have "filter isLifecycle ?ys =
      [CachedRead (path f), StatusShown (nextItem w) (js ''Generating title...''),
       StatusRemoved (nextItem w)]"
    using outbound_no_lifecycle [OF c] by (cases outcome) simp_all
  ultimately show ?thesis using s n unfolding g by auto
qed

lemma generateTitleFromFile_unreadable:
  "cachedRead en w (path f) = Inl e \<Longrightarrow>
   generateTitleFromFile en st f w = (Inl e, emit (CachedRead (path f)) w)"
  unfolding generateTitleFromFile_def Let_def by simp

lemma generateTitles_readable:
  assumes r: "\<forall>w' f. f \<in> set fs \<longrightarrow> (\<exists>c. cachedRead en w' (path f) = Inr c)"
  shows "fst (generateTitles en st fs w) = Inr (replicate (length fs) ()) \<and>
         nextItem (snd (generateTitles en st fs w)) = nextItem w + length fs \<and>
         (\<exists>ys. events (snd (generateTitles en st fs w)) = events w @ ys \<and>
               filter isLifecycle ys = oneAtATime (nextItem w) fs)"
  using r
proof (induction fs arbitrary: w)
  case Nil
  show ?case by (simp add: generateTitles_def)
next
  case (Cons f fs)
  from Cons.prems obtain c where c: "cachedRead en w (path f) = Inr c" by auto
  obtain w1 where m: "generateTitleFromFile en st f w = (Inr (), w1)"
    using generateTitleFromFile_read [OF c, of st]
    by (cases "generateTitleFromFile en st f w") auto
  from generateTitleFromFile_read [OF c, of st] m obtain ys where
    n1: "nextItem w1 = Suc (nextItem w)" and
    e1: "events w1 = events w @ ys" and
    l1: "filter isLifecycle ys =
           [CachedRead (path f), StatusShown (nextItem w) (js ''Generating title...''),
            StatusRemoved (nextItem w)]"
    by auto
  have rest: "\<forall>w' g. g \<in> set fs \<longrightarrow> (\<exists>c. cachedRead en w' (path g) = Inr c)"
    using Cons.prems by auto
  from Cons.IH [OF rest, of w1] obtain zs where
    s2: "fst (generateTitles en st fs w1) = Inr (replicate (length fs) ())" and
    n2: "nextItem (snd (generateTitles en st fs w1)) = nextItem w1 + length fs" and
    e2: "events (snd (generateTitles en st fs w1)) = events w1 @ zs" and
    l2: "filter isLifecycle zs = oneAtATime (nextItem w1) fs"
    by blast
  obtain w2 where p: "pMap (generateTitleFromFile en st) fs w1 = (Inr (replicate (length fs) ()), w2)"
    using s2 unfolding generateTitles_def
    by (cases "pMap (generateTitleFromFile en st) fs w1") auto
  have w2: "snd (generateTitles en st fs w1) = w2" unfolding generateTitles_def p by simp
  have all: "generateTitles en st (f # fs) w = (Inr (replicate (length (f # fs)) ()), w2)"
    unfolding generateTitles_def by (simp add: m p)
  have "events w2 = events w @ (ys @ zs)" using e1 e2 w2 by simp
  moreover have "filter isLifecycle (ys @ zs) = oneAtATime (nextItem w) (f # fs)"
    using l1 l2 n1 by simp
  ultimately show ?case unfolding all using n1 n2 w2 by auto
qed

lemma pMap_append:
  "pMap m xs w = (Inr rs, w1) \<Longrightarrow>
   pMap m (xs @ ys) w =
     (case pMap m ys w1 of
        (Inl e, w2) \<Rightarrow> (Inl e, w2)
      | (Inr zs, w2) \<Rightarrow> (Inr (rs @ zs), w2))"
  by (induction xs arbitrary: w rs) (auto split: prod.splits sum.splits)

lemma generateTitles_unreadable_at:
  assumes r: "\<forall>w' g. g \<in> set pre \<longrightarrow> (\<exists>c. cachedRead en w' (path g) = Inr c)"
    and u: "cachedRead en (snd (generateTitles en st pre w)) (path f) = Inl e"
  shows "generateTitles en st (pre @ f # post) w =
           (Inl e, emit (CachedRead (path f)) (snd (generateTitles en st pre w)))"
    and "filter isLifecycle (added w (snd (generateTitles en st (pre @ f # post) w))) =
           oneAtATime (nextItem w) pre @ [CachedRead (path f)]"
proof -
  let ?w1 = "snd (generateTitles en st pre w)"
  from generateTitles_readable [OF r, of st w] obtain ys where
    s: "fst (generateTitles en st pre w) = Inr (replicate (length pre) ())" and
    e: "events ?w1 = events w @ ys" and
    l: "filter isLifecycle ys = oneAtATime (nextItem w) pre"
    by blast
  have p: "pMap (generateTitleFromFile en st) pre w = (Inr (replicate (length pre) ()), ?w1)"
    using s unfolding generateTitles_def
    by (cases "pMap (generateTitleFromFile en st) pre w") auto
  have m: "generateTitleFromFile en st f ?w1 = (Inl e, emit (CachedRead (path f)) ?w1)"
    by (rule generateTitleFromFile_unreadable [OF u])
  show 1: "generateTitles en st (pre @ f # post) w = (Inl e, emit (CachedRead (path f)) ?w1)"
    unfolding generateTitles_def pMap_append [OF p]
    using m unfolding generateTitles_def by simp
  have "events (emit (CachedRead (path f)) ?w1) = events w @ (ys @ [CachedRead (path f)])"
    using e by (simp add: emit_def)
  then have "added w (emit (CachedRead (path f)) ?w1) = ys @ [CachedRead (path f)]"
    by (rule added_append)
  then show "filter isLifecycle (added w (snd (generateTitles en st (pre @ f # post) w))) =
           oneAtATime (nextItem w) pre @ [CachedRead (path f)]"
    unfolding 1 using l by simp
qed

section \<open>Properties of the path functions\<close>

lemma slash_lit: "js ''/'' = [0x2F]"
  by (simp add: js_def)

lemma afterLast_free: "\<forall>c\<in>set (afterLast P xs). \<not> P c"
  unfolding afterLast_def by (auto dest: set_takeWhileD)

lemma beforeLast_None:
  assumes "beforeLast P xs = None"
  shows "afterLast P xs = xs"
proof -
  have "dropWhile (\<lambda>c. \<not> P c) (rev xs) = []"
    using assms unfolding beforeLast_def by (simp split: list.splits)
  then have "takeWhile (\<lambda>c. \<not> P c) (rev xs) = rev xs"
    using takeWhile_dropWhile_id [of "\<lambda>c. \<not> P c" "rev xs"] by (simp only: append_Nil2)
  then show ?thesis unfolding afterLast_def by (simp only: rev_rev_ident)
qed

lemma beforeLast_Some:
  assumes "beforeLast P xs = Some q"
  shows "\<exists>c. P c \<and> xs = q @ [c] @ afterLast P xs"
proof -
  let ?Q = "\<lambda>c. \<not> P c"
  from assms obtain c ys where d: "dropWhile ?Q (rev xs) = c # ys" and q: "q = rev ys"
    unfolding beforeLast_def by (auto split: list.splits)
  have "\<not> ?Q (hd (dropWhile ?Q (rev xs)))"
    by (rule hd_dropWhile) (simp only: d, simp)
  then have c: "P c" unfolding d by simp
  have "rev xs = takeWhile ?Q (rev xs) @ c # ys"
    using takeWhile_dropWhile_id [of ?Q "rev xs"] unfolding d by simp
  then have "rev (rev xs) = rev (takeWhile ?Q (rev xs) @ c # ys)" by (rule arg_cong)
  then have "xs = q @ [c] @ afterLast P xs" unfolding afterLast_def q by simp
  with c show ?thesis by blast
qed

lemma adjacentSeparators_append:
  "adjacentSeparators (a @ b) \<longleftrightarrow>
     adjacentSeparators a \<or> adjacentSeparators b \<or>
     (a \<noteq> [] \<and> b \<noteq> [] \<and> isSeparator (last a) \<and> isSeparator (hd b))"
proof (induction a)
  case Nil
  show ?case by simp
next
  case (Cons x xs)
  note IH = Cons.IH
  show ?case
  proof (cases xs)
    case Nil
    then show ?thesis by (cases b) auto
  next
    case (Cons y ys)
    with IH show ?thesis by auto
  qed
qed

lemma no_separator_no_adjacent: "\<forall>c\<in>set x. \<not> isSeparator c \<Longrightarrow> \<not> adjacentSeparators x"
  by (induction x rule: adjacentSeparators.induct) auto

lemma collapseSeparators_id:
  "\<forall>c\<in>set s. c \<noteq> 0x5C \<Longrightarrow> \<not> adjacentSeparators s \<Longrightarrow> collapseSeparators s = s"
proof (induction s rule: collapseSeparators.induct)
  case 1
  then show ?case by simp
next
  case (2 c cs)
  have na: "\<not> adjacentSeparators cs" using "2.prems"(2) by (cases cs) auto
  have nb: "\<forall>c\<in>set cs. c \<noteq> 0x5C" using "2.prems"(1) by simp
  show ?case
  proof (cases "isSeparator c")
    case True
    have c: "c = 0x2F" using True "2.prems"(1) by (simp add: isSeparator_def)
    have nh: "cs = [] \<or> \<not> isSeparator (hd cs)" using "2.prems"(2) True by (cases cs) auto
    have dw: "dropWhile isSeparator cs = cs" using nh by (rule dropWhile_id)
    have "collapseSeparators cs = cs" using "2.IH"(1) [OF True] nb na dw by simp
    then show ?thesis using True dw c by simp
  next
    case False
    have "collapseSeparators cs = cs" using "2.IH"(2) [OF False nb na] .
    then show ?thesis using False by simp
  qed
qed

lemma set_afterLast: "set (afterLast P xs) \<subseteq> set xs"
  unfolding afterLast_def by (auto dest: set_takeWhileD)

lemma pathParse_relative:
  assumes ne: "p \<noteq> []" and h: "\<not> isSlash (hd p)"
  shows "dir (pathParse p) =
           (case beforeLast isSlash (dropTrailing isSlash p) of None \<Rightarrow> [] | Some q \<Rightarrow> q)"
    and "name (pathParse p) @ ext (pathParse p) = afterLast isSlash (dropTrailing isSlash p)"
proof -
  let ?r = "dropTrailing isSlash p"
  let ?b = "afterLast isSlash ?r"
  show "dir (pathParse p) = (case beforeLast isSlash ?r of None \<Rightarrow> [] | Some q \<Rightarrow> q)"
    unfolding pathParse_def Let_def using ne h by (simp split: option.split)
  show "name (pathParse p) @ ext (pathParse p) = ?b"
  proof (cases "beforeLast isDot ?b")
    case None
    then show ?thesis unfolding pathParse_def Let_def using ne h by simp
  next
    case (Some n)
    from beforeLast_Some [OF Some] obtain c where "isDot c" "?b = n @ [c] @ afterLast isDot ?b"
      by blast
    then have b: "n @ 0x2E # afterLast isDot ?b = ?b" by (simp add: isDot_def)
    show ?thesis unfolding pathParse_def Let_def using ne h Some b by simp
  qed
qed

lemma pathParse_absolute:
  assumes ne: "p \<noteq> []" and h: "isSlash (hd p)"
  shows "dir (pathParse p) \<noteq> [] \<and> isSlash (hd (dir (pathParse p)))"
  unfolding pathParse_def Let_def using ne h
  by (simp add: slash_lit isSlash_def split: option.split)

lemma pathParse_ext_no_slash: "\<forall>c\<in>set (ext (pathParse p)). \<not> isSlash c"
proof -
  have free: "\<forall>c\<in>set (afterLast isDot (afterLast isSlash r)). \<not> isSlash c" for r
    using set_afterLast [of isDot "afterLast isSlash r"] afterLast_free [of isSlash r] by blast
  have "ext (pathParse p) = [] \<or>
        (\<exists>r. ext (pathParse p) = 0x2E # afterLast isDot (afterLast isSlash r))"
    unfolding pathParse_def Let_def by auto
  then show ?thesis
  proof
    assume "ext (pathParse p) = []"
    then show ?thesis by simp
  next
    assume "\<exists>r. ext (pathParse p) = 0x2E # afterLast isDot (afterLast isSlash r)"
    then obtain r where e: "ext (pathParse p) = 0x2E # afterLast isDot (afterLast isSlash r)"
      by blast
    have "\<not> isSlash 0x2E" by (simp add: isSlash_def)
    then show ?thesis unfolding e using free [of r] by simp
  qed
qed

lemma pathParse_decompose:
  assumes rel: "p = [] \<or> \<not> isSlash (hd p)"
  shows "dropTrailing isSlash p =
           joinDir (dir (pathParse p)) (name (pathParse p) @ ext (pathParse p))"
proof (cases "p = []")
  case True
  then show ?thesis by (simp add: pathParse_def joinDir_def)
next
  case ne: False
  with rel have h: "\<not> isSlash (hd p)" by simp
  let ?r = "dropTrailing isSlash p"
  let ?b = "afterLast isSlash ?r"
  note pp = pathParse_relative [OF ne h]
  show ?thesis
  proof (cases "beforeLast isSlash ?r")
    case None
    then show ?thesis using pp beforeLast_None [OF None] by (simp add: joinDir_def)
  next
    case (Some q)
    from beforeLast_Some [OF Some] obtain c where c: "isSlash c" and r: "?r = q @ [c] @ ?b"
      by blast
    have rne: "?r \<noteq> []" by (subst r) simp
    have hr: "hd ?r = hd p" using rne by (rule dropTrailing_hd)
    have qne: "q \<noteq> []"
    proof
      assume "q = []"
      then have "?r = c # ?b" using r by simp
      then have "hd ?r = c" by (metis list.sel(1))
      with c h hr show False by simp
    qed
    have c': "c = 0x2F" using c by (simp add: isSlash_def)
    have "?r = joinDir q ?b" using r qne c' by (simp add: joinDir_def slash_lit)
    then show ?thesis using pp Some by simp
  qed
qed

lemma normalizePath_join:
  assumes d: "\<not> adjacentSeparators d"
      "d = [] \<or> (\<not> isSeparator (hd d) \<and> \<not> isSeparator (last d))"
      "\<forall>c\<in>set d. c \<noteq> 0x5C \<and> c \<noteq> 0xA0 \<and> c \<noteq> 0x202F"
    and x: "x \<noteq> []" "\<forall>c\<in>set x. \<not> isSeparator c \<and> c \<noteq> 0xA0 \<and> c \<noteq> 0x202F"
  shows "normalizePath en (d @ js ''/'' @ x) = normalizeNFC en (joinDir d x)"
proof -
  let ?s = "d @ [0x2F] @ x"
  have hx: "\<not> isSeparator (hd x)" "\<not> isSeparator (last x)" using x by simp_all
  have sl: "isSeparator 0x2F" by (simp add: isSeparator_def)
  have "\<not> adjacentSeparators ([0x2F] @ x)"
    unfolding adjacentSeparators_append [of "[0x2F]"]
    using no_separator_no_adjacent [of x] x hx by simp
  then have na: "\<not> adjacentSeparators ?s"
    unfolding adjacentSeparators_append [of d] using d(1,2) by auto
  have nb: "\<forall>c\<in>set ?s. c \<noteq> 0x5C" using d(3) x(2) by (auto simp: isSeparator_def)
  have 1: "collapseSeparators ?s = ?s" using nb na by (rule collapseSeparators_id)
  have 2: "dropWhile isSlash ?s = joinDir d x"
  proof (cases "d = []")
    case True
    have "\<not> isSlash (hd x)" using hx(1) by (simp add: isSeparator_def isSlash_def)
    then have "dropWhile isSlash x = x" using x(1) by (intro dropWhile_id) simp
    then show ?thesis using True by (simp add: joinDir_def isSlash_def)
  next
    case False
    then have "\<not> isSlash (hd ?s)" using d(2) by (simp add: isSeparator_def isSlash_def)
    then have "dropWhile isSlash ?s = ?s" by (intro dropWhile_id) simp
    then show ?thesis using False by (simp add: joinDir_def slash_lit)
  qed
  have ne: "joinDir d x \<noteq> []" using x(1) by (simp add: joinDir_def)
  have "last (joinDir d x) = last x" using x(1) by (simp add: joinDir_def slash_lit)
  then have "\<not> isSlash (last (joinDir d x))" using hx(2) by (simp add: isSeparator_def isSlash_def)
  then have 3: "dropTrailing isSlash (joinDir d x) = joinDir d x" by (intro dropTrailing_id) simp
  have "\<forall>c\<in>set (joinDir d x). \<not> (c = 0xA0 \<or> c = 0x202F)"
    using d(3) x(2) by (auto simp: joinDir_def slash_lit)
  then have 4: "map (\<lambda>c. if c = 0xA0 \<or> c = 0x202F then 0x20 else c) (joinDir d x) = joinDir d x"
    by (intro map_idI) simp
  show ?thesis
    unfolding normalizePath_def Let_def slash_lit 1 2 3 using ne 4 by simp
qed

lemma sanitize_path_chars:
  "\<forall>c\<in>set (sanitize raw). \<not> isSeparator c \<and> c \<noteq> 0xA0 \<and> c \<noteq> 0x202F"
proof
  fix c assume c: "c \<in> set (sanitize raw)"
  have "clean (sanitize raw)" by (simp add: sanitize_def clean_removeInvalid)
  with c have i: "\<not> isInvalidFileNameChar c" and w: "isWhiteSpace c \<longrightarrow> c = 0x20"
    by (auto simp: clean_def)
  have "\<not> isSeparator c" using i by (auto simp: isSeparator_def isInvalidFileNameChar_def)
  moreover have "c \<noteq> 0xA0" "c \<noteq> 0x202F" using w by (auto simp: isWhiteSpace_def)
  ultimately show "\<not> isSeparator c \<and> c \<noteq> 0xA0 \<and> c \<noteq> 0x202F" by simp
qed

section \<open>The sanitizer claims\<close>

text \<open>
  Claim C2, as the code has it: the sanitizer is not idempotent in general. Sanitizing a
  second time strips the surrounding quotation marks of the first result once more and
  changes nothing else; the two results agree whenever the first result neither begins
  nor ends with a quotation mark.
\<close>

theorem sanitize_second_pass:
  "sanitize (sanitize x) = stripSurroundingQuotes (sanitize x) \<and>
   (sanitize x = [] \<or>
      (\<not> isQuoteChar (hd (sanitize x)) \<and> \<not> isQuoteChar (last (sanitize x)))
    \<longrightarrow> sanitize (sanitize x) = sanitize x)"
  using sanitize_ends [of x] by (auto simp: sanitize_twice isStripChar_def intro!: strip_id)

text \<open>
  The spec's example \<^verbatim>\<open>  "My Title!"  \<close> sanitizes to \<^verbatim>\<open>My Title!\<close>, which has no
  quotation mark at either end, and a second pass leaves it alone.
\<close>

theorem sanitize_second_pass_witness:
  "sanitize (js ''  \"My Title!\"  '') = js ''My Title!'' \<and>
   \<not> isQuoteChar (hd (sanitize (js ''  \"My Title!\"  ''))) \<and>
   \<not> isQuoteChar (last (sanitize (js ''  \"My Title!\"  ''))) \<and>
   sanitize (sanitize (js ''  \"My Title!\"  '')) = sanitize (js ''  \"My Title!\"  '')"
proof -
  have e: "sanitize (js ''  \"My Title!\"  '') = js ''My Title!''"
    by code_simp
  have q: "\<not> isQuoteChar (hd (sanitize (js ''  \"My Title!\"  '')))"
    "\<not> isQuoteChar (last (sanitize (js ''  \"My Title!\"  '')))"
    unfolding e by code_simp+
  show ?thesis
    using sanitize_second_pass [of "js ''  \"My Title!\"  ''"] q e by blast
qed

text \<open>
  Claim C2 as stated fails: for the raw text \<^verbatim>\<open>:'a\<close> the colon shields the apostrophe
  from the first stripping and then turns into a space that is trimmed away, so the first
  pass gives \<^verbatim>\<open>'a\<close> and the second \<^verbatim>\<open>a\<close>.
\<close>

theorem sanitize_not_idempotent:
  "sanitize (js '':'' @ [0x27] @ js ''a'') = [0x27] @ js ''a'' \<and>
   sanitize (sanitize (js '':'' @ [0x27] @ js ''a'')) = js ''a'' \<and>
   sanitize (sanitize (js '':'' @ [0x27] @ js ''a'')) \<noteq> sanitize (js '':'' @ [0x27] @ js ''a'')"
  by code_simp

text \<open>
  Claim C10: for every raw text the sanitized title holds none of the characters
  \<^verbatim>\<open>< > : " / \ | ? *\<close>, neither begins nor ends with white space, and has no two
  white-space characters in a row.
\<close>

theorem sanitize_filename_safe:
  "(\<forall>c\<in>set (sanitize x). \<not> isInvalidFileNameChar c) \<and>
   (sanitize x \<noteq> [] \<longrightarrow>
      \<not> isWhiteSpace (hd (sanitize x)) \<and> \<not> isWhiteSpace (last (sanitize x))) \<and>
   \<not> adjacentWhiteSpace (sanitize x)"
  using sanitize_ends [of x] clean_removeInvalid [of "stripSurroundingQuotes x"]
  by (auto simp: sanitize_def clean_def)

text \<open>The spec's example \<^verbatim>\<open>Notes/Plan: Q3\<close> becomes \<^verbatim>\<open>Notes Plan Q3\<close>.\<close>

theorem sanitize_filename_safe_witness:
  "sanitize (js ''Notes/Plan: Q3'') = js ''Notes Plan Q3'' \<and>
   \<not> list_ex isInvalidFileNameChar (sanitize (js ''Notes/Plan: Q3'')) \<and>
   \<not> isWhiteSpace (hd (sanitize (js ''Notes/Plan: Q3''))) \<and>
   \<not> isWhiteSpace (last (sanitize (js ''Notes/Plan: Q3''))) \<and>
   \<not> adjacentWhiteSpace (sanitize (js ''Notes/Plan: Q3''))"
proof -
  have e: "sanitize (js ''Notes/Plan: Q3'') = js ''Notes Plan Q3''"
    by code_simp
  have ne: "sanitize (js ''Notes/Plan: Q3'') \<noteq> []"
    unfolding e by (simp add: js_def)
  show ?thesis
    using sanitize_filename_safe [of "js ''Notes/Plan: Q3''"] ne e
    unfolding list_ex_iff by blast
qed

section \<open>The rendering claim\<close>




section \<open>The claims about the provider clients and the orchestrator\<close>

text \<open>
  Claim C3: whatever the settings and the prompt, every \<^verbatim>\<open>fetch\<close> that
  \<^verbatim>\<open>callFireworks\<close> or a whole run of \<^verbatim>\<open>generateTitle\<close> issues carries
  \<^verbatim>\<open>store: false\<close> in its body; and with a model and a key configured
  \<^verbatim>\<open>callFireworks\<close> issues exactly one such request.
\<close>

theorem fireworks_store_false:
  "list_all noRetention (added w (snd (callFireworks en st prompt w))) \<and>
   list_all noRetention (added w (snd (generateTitle en st file content w))) \<and>
   (trim (fireworksModel st) \<noteq> [] \<and> trim (fireworksApiKey st) \<noteq> [] \<longrightarrow>
      (\<exists>request. added w (snd (callFireworks en st prompt w)) = [Fetch request] \<and>
         getMember (reqBody request) (js ''store'') = Inr (Some (JBool False))))"
proof -
  obtain outcome w3 where t: "generateTitleTry en st file content (withStatusItem w) = (outcome, w3)"
    by (cases "generateTitleTry en st file content (withStatusItem w)")
  from generateTitle_run [OF t] obtain xs where
    c: "list_all noRetention xs" and
    e: "events (snd (generateTitle en st file content w)) =
          events w @ [StatusShown (nextItem w) (js ''Generating title...'')] @ xs @
          (case outcome of Inl e \<Rightarrow> [ConsoleError e, NoticeShown e] | Inr u \<Rightarrow> []) @
          [StatusRemoved (nextItem w)]"
    by blast
  have g: "list_all noRetention (added w (snd (generateTitle en st file content w)))"
    unfolding added_append [OF e] using c by (cases outcome) simp_all
  from callFireworks_frame [of en st prompt w] obtain ys where
    "events (snd (callFireworks en st prompt w)) = events w @ ys" "list_all noRetention ys"
    by blast
  then have f: "list_all noRetention (added w (snd (callFireworks en st prompt w)))" by simp
  show ?thesis using f g callFireworks_request [of st w en prompt] by blast
qed

theorem fireworks_store_false_witness:
  "trim (fireworksModel fireworksSettings) \<noteq> [] \<and>
   trim (fireworksApiKey fireworksSettings) \<noteq> [] \<and>
   (\<exists>request.
      added emptyWorld (snd (callFireworks (sampleEnv JNull) fireworksSettings (js ''p'') emptyWorld))
        = [Fetch request] \<and>
      getMember (reqBody request) (js ''store'') = Inr (Some (JBool False)))"
proof -
  have h: "trim (fireworksModel fireworksSettings) \<noteq> []"
    "trim (fireworksApiKey fireworksSettings) \<noteq> []"
    by code_simp+
  show ?thesis
    using fireworks_store_false [of emptyWorld "sampleEnv JNull" fireworksSettings "js ''p''"] h
    by blast
qed

text \<open>
  Claim C4 fails on the code: a response with status 200 whose body is the JSON value
  \<^verbatim>\<open>null\<close> makes \<^verbatim>\<open>data.output_text\<close> raise a \<^verbatim>\<open>TypeError\<close> outside the
  \<^verbatim>\<open>try\<close> block, and the run ends with a notice of that error instead of the
  empty-title error. So does an \<^verbatim>\<open>output_text\<close> that is an object with a member named
  \<^verbatim>\<open>toString\<close>.
\<close>

theorem extractOutput_null_throws:
  "extractOutput en JNull = Inl TypeError \<and>
   extractOutput en (JObj [(js ''output_text'', JObj [(js ''toString'', JNum 1)])])
     = Inl TypeError \<and>
   filter isNotice
     (added emptyWorld
        (snd (generateTitle (sampleEnv JNull) fireworksSettings \<lparr>path = js ''folder/old-name.md''\<rparr>
                (js ''note text'') emptyWorld)))
     = [NoticeShown TypeError]"
proof -
  have "extractOutput en JNull = Inl TypeError"
    by (simp add: extractOutput_def bindE_def)
  moreover have
    "extractOutput en (JObj [(js ''output_text'', JObj [(js ''toString'', JNum 1)])])
       = Inl TypeError"
    by code_simp
  moreover have "filter isNotice
     (added emptyWorld
        (snd (generateTitle (sampleEnv JNull) fireworksSettings \<lparr>path = js ''folder/old-name.md''\<rparr>
                (js ''note text'') emptyWorld)))
     = [NoticeShown TypeError]"
    by code_simp
  ultimately show ?thesis by blast
qed

text \<open>
  Claim C5: with the OpenAI provider selected and its key empty, \<^verbatim>\<open>generateTitle\<close>
  resolves; all it does is show the status item, log and show the error
  \<^verbatim>\<open>Please set your OpenAI API key in the settings.\<close> and remove the status item. No
  request is made.
\<close>

theorem missing_openai_key:
  "provider st = OpenAI \<Longrightarrow> openAiApiKey st = [] \<Longrightarrow>
   generateTitle en st file content w =
     (Inr (),
      w\<lparr>statusBar := removeAll (nextItem w) (statusBar w),
        nextItem := Suc (nextItem w),
        events := events w @
          [StatusShown (nextItem w) (js ''Generating title...''),
           ConsoleError (Error (js ''Please set your OpenAI API key in the settings.'')),
           NoticeShown (Error (js ''Please set your OpenAI API key in the settings.'')),
           StatusRemoved (nextItem w)]\<rparr>) \<and>
   filter isNetworkCall (added w (snd (generateTitle en st file content w))) = []"
proof -
  assume a: "provider st = OpenAI" "openAiApiKey st = []"
  have t: "generateTitleTry en st file content (withStatusItem w) =
      (Inl (Error (js ''Please set your OpenAI API key in the settings.'')), withStatusItem w)"
    unfolding generateTitleTry_def using a by simp
  have g: "generateTitle en st file content w =
     (Inr (),
      w\<lparr>statusBar := removeAll (nextItem w) (statusBar w),
        nextItem := Suc (nextItem w),
        events := events w @
          [StatusShown (nextItem w) (js ''Generating title...''),
           ConsoleError (Error (js ''Please set your OpenAI API key in the settings.'')),
           NoticeShown (Error (js ''Please set your OpenAI API key in the settings.'')),
           StatusRemoved (nextItem w)]\<rparr>)"
    unfolding generateTitle_shape [OF t]
    by (simp add: withStatusItem_def addStatusBarItem_def createEl_def removeItem_def
          generateTitleCatch_def emit_def)
  show ?thesis unfolding g by (simp add: added_def)
qed

theorem missing_openai_key_witness:
  "provider DEFAULT_SETTINGS = OpenAI \<and> openAiApiKey DEFAULT_SETTINGS = [] \<and>
   fst (generateTitle (sampleEnv JNull) DEFAULT_SETTINGS \<lparr>path = js ''folder/old-name.md''\<rparr> (js ''note text'') emptyWorld)
     = Inr () \<and>
   filter isNetworkCall
     (added emptyWorld
        (snd (generateTitle (sampleEnv JNull) DEFAULT_SETTINGS \<lparr>path = js ''folder/old-name.md''\<rparr> (js ''note text'') emptyWorld)))
     = []"
proof -
  have h: "provider DEFAULT_SETTINGS = OpenAI" "openAiApiKey DEFAULT_SETTINGS = []"
    by (simp_all add: DEFAULT_SETTINGS_def)
  show ?thesis
    using missing_openai_key [OF h, of "sampleEnv JNull" "\<lparr>path = js ''folder/old-name.md''\<rparr>" "js ''note text''" emptyWorld] h
    by simp
qed

text \<open>
  Claim C7: every run of \<^verbatim>\<open>generateTitle\<close> resolves, whatever the environment
  answers; its status item is gone at the end and its removal is the last thing that
  happens; and the run shows one notice when its \<^verbatim>\<open>try\<close> block fails and none when
  it succeeds.
\<close>

theorem generateTitle_always_settles:
  "fst (generateTitle en st file content w) = Inr () \<and>
   statusBar (snd (generateTitle en st file content w)) = removeAll (nextItem w) (statusBar w) \<and>
   nextItem w \<notin> set (statusBar (snd (generateTitle en st file content w))) \<and>
   last (events (snd (generateTitle en st file content w))) = StatusRemoved (nextItem w) \<and>
   filter isNotice (added w (snd (generateTitle en st file content w))) =
     (case fst (generateTitleTry en st file content (withStatusItem w)) of
        Inl err \<Rightarrow> [NoticeShown err]
      | Inr u \<Rightarrow> [])"
proof -
  obtain outcome w3 where t: "generateTitleTry en st file content (withStatusItem w) = (outcome, w3)"
    by (cases "generateTitleTry en st file content (withStatusItem w)")
  from generateTitle_run [OF t] obtain xs where
    c: "list_all isOutbound xs" and
    s: "fst (generateTitle en st file content w) = Inr ()" and
    e: "events (snd (generateTitle en st file content w)) =
          events w @ [StatusShown (nextItem w) (js ''Generating title...'')] @ xs @
          (case outcome of Inl e \<Rightarrow> [ConsoleError e, NoticeShown e] | Inr u \<Rightarrow> []) @
          [StatusRemoved (nextItem w)]" and
    b: "statusBar (snd (generateTitle en st file content w)) = removeAll (nextItem w) (statusBar w)"
    by blast
  have n: "filter isNotice (added w (snd (generateTitle en st file content w))) =
     (case outcome of Inl err \<Rightarrow> [NoticeShown err] | Inr u \<Rightarrow> [])"
    unfolding added_append [OF e] using outbound_no_notice [OF c] by (cases outcome) simp_all
  show ?thesis using s b n unfolding e t by simp
qed

text \<open>A provider answer without text: the run ends with the empty-title notice.\<close>

theorem generateTitle_always_settles_witness:
  "fst (generateTitle (sampleEnv (JObj [])) fireworksSettings \<lparr>path = js ''folder/old-name.md''\<rparr> (js ''note text'') emptyWorld)
     = Inr () \<and>
   statusBar
     (snd (generateTitle (sampleEnv (JObj [])) fireworksSettings \<lparr>path = js ''folder/old-name.md''\<rparr> (js ''note text'') emptyWorld))
     = [] \<and>
   filter isNotice
     (added emptyWorld
        (snd (generateTitle (sampleEnv (JObj [])) fireworksSettings \<lparr>path = js ''folder/old-name.md''\<rparr>
                (js ''note text'') emptyWorld)))
     = [NoticeShown (Error (js ''Model returned an empty title.''))]"
proof -
  have t: "fst (generateTitleTry (sampleEnv (JObj [])) fireworksSettings \<lparr>path = js ''folder/old-name.md''\<rparr>
                  (js ''note text'') (withStatusItem emptyWorld))
           = Inl (Error (js ''Model returned an empty title.''))"
    by code_simp
  have b: "removeAll (nextItem emptyWorld) (statusBar emptyWorld) = []"
    by (simp add: emptyWorld_def)
  show ?thesis
    using generateTitle_always_settles
      [of "sampleEnv (JObj [])" fireworksSettings "\<lparr>path = js ''folder/old-name.md''\<rparr>" "js ''note text''" emptyWorld]
    unfolding t b by simp
qed

text \<open>
  Claim C9: when the configured OpenAI model is empty or white space only,
  \<^verbatim>\<open>callOpenAI\<close> makes one request, to the chat endpoint, for the model
  \<^verbatim>\<open>gpt-5-nano-2025-08-07\<close>.
\<close>

theorem default_model_uses_chat:
  "trim (openAiModel st) = [] \<Longrightarrow>
   (\<exists>request. added w (snd (callOpenAI en st prompt w)) = [ChatCompletionsCreate request] \<and>
      getMember request (js ''model'') = Inr (Some (JStr (js ''gpt-5-nano-2025-08-07''))))"
  unfolding callOpenAI_def Let_def
  by (simp add: not_completions_default added_def chatRequest_model split: sum.split option.split)

theorem default_model_uses_chat_witness:
  "trim (openAiModel (DEFAULT_SETTINGS\<lparr>openAiModel := js ''   ''\<rparr>)) = [] \<and>
   (\<exists>request.
      added emptyWorld
        (snd (callOpenAI (sampleEnv JNull) (DEFAULT_SETTINGS\<lparr>openAiModel := js ''   ''\<rparr>)
                (js ''p'') emptyWorld))
        = [ChatCompletionsCreate request] \<and>
      getMember request (js ''model'') = Inr (Some (JStr (js ''gpt-5-nano-2025-08-07''))))"
proof -
  have h: "trim (openAiModel (DEFAULT_SETTINGS\<lparr>openAiModel := js ''   ''\<rparr>)) = []"
    by code_simp
  show ?thesis
    using default_model_uses_chat [OF h, of emptyWorld "sampleEnv JNull" "js ''p''"] h
    by blast
qed

section \<open>The bulk dispatch claim\<close>

text \<open>
  Claim C8, as the code has it. When the content of every document can be read, the
  dispatch resolves and the documents are handled one at a time in the order given: each
  is read, gets its status item and loses it again before the next one is read, whatever
  happens to its title in between. When the documents before some document can be read
  and that document cannot, the dispatch rejects with the error of the read, right after
  the attempt to read it: the documents before it have been handled one at a time, and no
  document after it is read or gets a status item.
\<close>

theorem bulk_dispatch_sequential:
  "((\<forall>w' f. f \<in> set tFiles \<longrightarrow> (\<exists>c. cachedRead en w' (path f) = Inr c)) \<longrightarrow>
      fst (generateTitles en st tFiles w) = Inr (replicate (length tFiles) ()) \<and>
      filter isLifecycle (added w (snd (generateTitles en st tFiles w)))
        = oneAtATime (nextItem w) tFiles) \<and>
   ((\<forall>w' g. g \<in> set pre \<longrightarrow> (\<exists>c. cachedRead en w' (path g) = Inr c)) \<and>
    cachedRead en (snd (generateTitles en st pre w)) (path f) = Inl e \<longrightarrow>
      generateTitles en st (pre @ f # post) w
        = (Inl e, emit (CachedRead (path f)) (snd (generateTitles en st pre w))) \<and>
      filter isLifecycle (added w (snd (generateTitles en st (pre @ f # post) w)))
        = oneAtATime (nextItem w) pre @ [CachedRead (path f)])"
proof -
  have 1: "fst (generateTitles en st tFiles w) = Inr (replicate (length tFiles) ()) \<and>
      filter isLifecycle (added w (snd (generateTitles en st tFiles w)))
        = oneAtATime (nextItem w) tFiles"
    if r: "\<forall>w' f. f \<in> set tFiles \<longrightarrow> (\<exists>c. cachedRead en w' (path f) = Inr c)"
    using generateTitles_readable [OF r, of st w] by auto
  have 2: "generateTitles en st (pre @ f # post) w
        = (Inl e, emit (CachedRead (path f)) (snd (generateTitles en st pre w))) \<and>
      filter isLifecycle (added w (snd (generateTitles en st (pre @ f # post) w)))
        = oneAtATime (nextItem w) pre @ [CachedRead (path f)]"
    if r: "\<forall>w' g. g \<in> set pre \<longrightarrow> (\<exists>c. cachedRead en w' (path g) = Inr c)"
      and u: "cachedRead en (snd (generateTitles en st pre w)) (path f) = Inl e"
    using generateTitles_unreadable_at [OF r u, of post] by simp
  show ?thesis using 1 2 by blast
qed

text \<open>
  No OpenAI key, so that every run fails with the configuration error. Two readable
  documents: both runs take place, in order. Then the unreadable \<^verbatim>\<open>gone.md\<close> between
  them: the first document is handled, the read of \<^verbatim>\<open>gone.md\<close> rejects the dispatch,
  and the third document is never read.
\<close>

theorem bulk_dispatch_sequential_witness:
  "fst (generateTitles unreadableEnv DEFAULT_SETTINGS [\<lparr>path = js ''next.md''\<rparr>, \<lparr>path = js ''third.md''\<rparr>] emptyWorld) = Inr [(), ()] \<and>
   filter isLifecycle
     (added emptyWorld (snd (generateTitles unreadableEnv DEFAULT_SETTINGS [\<lparr>path = js ''next.md''\<rparr>, \<lparr>path = js ''third.md''\<rparr>] emptyWorld)))
     = [CachedRead (js ''next.md''), StatusShown 0 (js ''Generating title...''), StatusRemoved 0,
        CachedRead (js ''third.md''), StatusShown 1 (js ''Generating title...''), StatusRemoved 1] \<and>
   fst (generateTitles unreadableEnv DEFAULT_SETTINGS [\<lparr>path = js ''next.md''\<rparr>, \<lparr>path = js ''gone.md''\<rparr>, \<lparr>path = js ''third.md''\<rparr>] emptyWorld)
     = Inl (Error (js ''ENOENT: no such file or directory'')) \<and>
   snd (generateTitles unreadableEnv DEFAULT_SETTINGS [\<lparr>path = js ''next.md''\<rparr>, \<lparr>path = js ''gone.md''\<rparr>, \<lparr>path = js ''third.md''\<rparr>] emptyWorld)
     = emit (CachedRead (js ''gone.md''))
         (snd (generateTitles unreadableEnv DEFAULT_SETTINGS [\<lparr>path = js ''next.md''\<rparr>] emptyWorld)) \<and>
   filter isLifecycle
     (added emptyWorld (snd (generateTitles unreadableEnv DEFAULT_SETTINGS [\<lparr>path = js ''next.md''\<rparr>, \<lparr>path = js ''gone.md''\<rparr>, \<lparr>path = js ''third.md''\<rparr>] emptyWorld)))
     = [CachedRead (js ''next.md''), StatusShown 0 (js ''Generating title...''), StatusRemoved 0,
        CachedRead (js ''gone.md'')]"
proof -
  have n: "js ''next.md'' \<noteq> js ''gone.md''" "js ''third.md'' \<noteq> js ''gone.md''"
    by (simp_all add: js_def)
  have r: "\<forall>w' f. f \<in> set [\<lparr>path = js ''next.md''\<rparr>, \<lparr>path = js ''third.md''\<rparr>] \<longrightarrow>
             (\<exists>c. cachedRead unreadableEnv w' (path f) = Inr c)"
    using n by (simp add: unreadableEnv_def)
  have p: "\<forall>w' g. g \<in> set [\<lparr>path = js ''next.md''\<rparr>] \<longrightarrow>
             (\<exists>c. cachedRead unreadableEnv w' (path g) = Inr c)"
    using n by (simp add: unreadableEnv_def)
  have u: "cachedRead unreadableEnv
             (snd (generateTitles unreadableEnv DEFAULT_SETTINGS [\<lparr>path = js ''next.md''\<rparr>] emptyWorld))
             (path \<lparr>path = js ''gone.md''\<rparr>) = Inl (Error (js ''ENOENT: no such file or directory''))"
    by (simp add: unreadableEnv_def)
  have o: "oneAtATime (nextItem emptyWorld) [\<lparr>path = js ''next.md''\<rparr>, \<lparr>path = js ''third.md''\<rparr>] =
      [CachedRead (js ''next.md''), StatusShown 0 (js ''Generating title...''), StatusRemoved 0,
       CachedRead (js ''third.md''), StatusShown 1 (js ''Generating title...''), StatusRemoved 1]"
    "oneAtATime (nextItem emptyWorld) [\<lparr>path = js ''next.md''\<rparr>] @ [CachedRead (path \<lparr>path = js ''gone.md''\<rparr>)] =
      [CachedRead (js ''next.md''), StatusShown 0 (js ''Generating title...''), StatusRemoved 0,
       CachedRead (js ''gone.md'')]"
    by (simp_all add: emptyWorld_def)
  note t = bulk_dispatch_sequential
      [of "[\<lparr>path = js ''next.md''\<rparr>, \<lparr>path = js ''third.md''\<rparr>]" unreadableEnv DEFAULT_SETTINGS emptyWorld
          "[\<lparr>path = js ''next.md''\<rparr>]" "\<lparr>path = js ''gone.md''\<rparr>"
          "Error (js ''ENOENT: no such file or directory'')" "[\<lparr>path = js ''third.md''\<rparr>]"]
  from t r have a0:
    "fst (generateTitles unreadableEnv DEFAULT_SETTINGS [\<lparr>path = js ''next.md''\<rparr>, \<lparr>path = js ''third.md''\<rparr>] emptyWorld)
       = Inr (replicate (length [\<lparr>path = js ''next.md''\<rparr>, \<lparr>path = js ''third.md''\<rparr>]) ()) \<and>
     filter isLifecycle
       (added emptyWorld (snd (generateTitles unreadableEnv DEFAULT_SETTINGS [\<lparr>path = js ''next.md''\<rparr>, \<lparr>path = js ''third.md''\<rparr>] emptyWorld)))
       = oneAtATime (nextItem emptyWorld) [\<lparr>path = js ''next.md''\<rparr>, \<lparr>path = js ''third.md''\<rparr>]"
    by blast
  from t p u have b0:
    "generateTitles unreadableEnv DEFAULT_SETTINGS ([\<lparr>path = js ''next.md''\<rparr>] @ \<lparr>path = js ''gone.md''\<rparr> # [\<lparr>path = js ''third.md''\<rparr>]) emptyWorld
       = (Inl (Error (js ''ENOENT: no such file or directory'')),
          emit (CachedRead (path \<lparr>path = js ''gone.md''\<rparr>))
            (snd (generateTitles unreadableEnv DEFAULT_SETTINGS [\<lparr>path = js ''next.md''\<rparr>] emptyWorld))) \<and>
     filter isLifecycle
       (added emptyWorld
          (snd (generateTitles unreadableEnv DEFAULT_SETTINGS ([\<lparr>path = js ''next.md''\<rparr>] @ \<lparr>path = js ''gone.md''\<rparr> # [\<lparr>path = js ''third.md''\<rparr>]) emptyWorld)))
       = oneAtATime (nextItem emptyWorld) [\<lparr>path = js ''next.md''\<rparr>] @ [CachedRead (path \<lparr>path = js ''gone.md''\<rparr>)]"
    by blast
  have ap: "[\<lparr>path = js ''next.md''\<rparr>] @ \<lparr>path = js ''gone.md''\<rparr> # [\<lparr>path = js ''third.md''\<rparr>] = [\<lparr>path = js ''next.md''\<rparr>, \<lparr>path = js ''gone.md''\<rparr>, \<lparr>path = js ''third.md''\<rparr>]"
    by simp
  have a1: "fst (generateTitles unreadableEnv DEFAULT_SETTINGS [\<lparr>path = js ''next.md''\<rparr>, \<lparr>path = js ''third.md''\<rparr>] emptyWorld) = Inr [(), ()]"
    using a0 by simp
  have a2: "filter isLifecycle
       (added emptyWorld (snd (generateTitles unreadableEnv DEFAULT_SETTINGS [\<lparr>path = js ''next.md''\<rparr>, \<lparr>path = js ''third.md''\<rparr>] emptyWorld)))
       = [CachedRead (js ''next.md''), StatusShown 0 (js ''Generating title...''), StatusRemoved 0,
          CachedRead (js ''third.md''), StatusShown 1 (js ''Generating title...''), StatusRemoved 1]"
    using a0 [THEN conjunct2] unfolding o .
  have b1: "fst (generateTitles unreadableEnv DEFAULT_SETTINGS [\<lparr>path = js ''next.md''\<rparr>, \<lparr>path = js ''gone.md''\<rparr>, \<lparr>path = js ''third.md''\<rparr>] emptyWorld)
       = Inl (Error (js ''ENOENT: no such file or directory''))"
    using b0 [THEN conjunct1] unfolding ap by simp
  have b2: "snd (generateTitles unreadableEnv DEFAULT_SETTINGS [\<lparr>path = js ''next.md''\<rparr>, \<lparr>path = js ''gone.md''\<rparr>, \<lparr>path = js ''third.md''\<rparr>] emptyWorld)
       = emit (CachedRead (js ''gone.md''))
           (snd (generateTitles unreadableEnv DEFAULT_SETTINGS [\<lparr>path = js ''next.md''\<rparr>] emptyWorld))"
    using b0 [THEN conjunct1] unfolding ap by simp
  have b3: "filter isLifecycle
       (added emptyWorld (snd (generateTitles unreadableEnv DEFAULT_SETTINGS [\<lparr>path = js ''next.md''\<rparr>, \<lparr>path = js ''gone.md''\<rparr>, \<lparr>path = js ''third.md''\<rparr>] emptyWorld)))
       = [CachedRead (js ''next.md''), StatusShown 0 (js ''Generating title...''), StatusRemoved 0,
          CachedRead (js ''gone.md'')]"
    using b0 [THEN conjunct2] unfolding ap o .
  show ?thesis
    using a1 a2 b1 b2 b3 by blast
qed

text \<open>
  Claim C8 as stated fails: when the first of two documents cannot be read, the dispatch
  rejects with that error and the second document is never touched.
\<close>

theorem bulk_dispatch_stops_at_unreadable:
  "generateTitles unreadableEnv fireworksSettings [\<lparr>path = js ''gone.md''\<rparr>, \<lparr>path = js ''next.md''\<rparr>] emptyWorld =
     (Inl (Error (js ''ENOENT: no such file or directory'')),
      emptyWorld\<lparr>events := [CachedRead (js ''gone.md'')]\<rparr>)"
  by (simp add: generateTitles_def generateTitleFromFile_def unreadableEnv_def sampleEnv_def
        emptyWorld_def emit_def)

section \<open>The rename target claim\<close>

text \<open>
  Claim C6, as the code has it. For a document whose directory and extension are plain,
  and a raw provider output whose sanitized form is not empty, the rename target is the
  Unicode normal form C of directory, slash, sanitized title and extension; so it is that
  very text whenever normal form C leaves it unchanged, as it leaves every ASCII text.
  Directory, name and extension are those of the document's path, trailing slashes apart.
  In particular, whatever the environment, the raw output \<^verbatim>\<open>"Great Ideas"\<close> for the
  document \<^verbatim>\<open>folder/old-name.md\<close> gives \<^verbatim>\<open>folder/Great Ideas.md\<close>.
\<close>

theorem rename_target_keeps_dir_and_ext:
  "(isPlainDir (dir (pathParse (path file))) \<and> isPlainExt (ext (pathParse (path file))) \<and>
    sanitize raw \<noteq> [] \<longrightarrow>
      newPath en file (sanitize raw)
        = normalizeNFC en
            (joinDir (dir (pathParse (path file))) (sanitize raw @ ext (pathParse (path file)))) \<and>
      (normalizeNFC en
         (joinDir (dir (pathParse (path file))) (sanitize raw @ ext (pathParse (path file))))
         = joinDir (dir (pathParse (path file))) (sanitize raw @ ext (pathParse (path file)))
       \<longrightarrow>
         newPath en file (sanitize raw)
           = joinDir (dir (pathParse (path file))) (sanitize raw @ ext (pathParse (path file)))) \<and>
      dropTrailing isSlash (path file)
        = joinDir (dir (pathParse (path file)))
            (name (pathParse (path file)) @ ext (pathParse (path file)))) \<and>
   sanitize (js ''\"Great Ideas\"'') = js ''Great Ideas'' \<and>
   newPath en \<lparr>path = js ''folder/old-name.md''\<rparr> (sanitize (js ''\"Great Ideas\"'')) = js ''folder/Great Ideas.md''"
proof -
  let ?P = "pathParse (path file)"
  let ?X = "joinDir (dir ?P) (sanitize raw @ ext ?P)"
  have main: "newPath en file (sanitize raw) = normalizeNFC en ?X \<and>
      (normalizeNFC en ?X = ?X \<longrightarrow> newPath en file (sanitize raw) = ?X) \<and>
      dropTrailing isSlash (path file) = joinDir (dir ?P) (name ?P @ ext ?P)"
    if pd: "isPlainDir (dir ?P)" and pe: "isPlainExt (ext ?P)" and t: "sanitize raw \<noteq> []"
  proof -
    have dc: "\<forall>c\<in>set (dir ?P). c \<noteq> 0x5C \<and> c \<noteq> 0xA0 \<and> c \<noteq> 0x202F"
      using pd by (simp add: isPlainDir_def list_all_iff)
    have na: "\<not> adjacentSeparators (dir ?P)"
      using pd by (simp add: isPlainDir_def)
    have ends: "dir ?P = [] \<or> (\<not> isSeparator (hd (dir ?P)) \<and> \<not> isSeparator (last (dir ?P)))"
    proof (cases "dir ?P = []")
      case True
      then show ?thesis by simp
    next
      case False
      then have "hd (dir ?P) \<in> set (dir ?P)" "last (dir ?P) \<in> set (dir ?P)"
        by simp_all
      then have "hd (dir ?P) \<noteq> 0x5C" "last (dir ?P) \<noteq> 0x5C"
        using dc by blast+
      moreover have "\<not> isSlash (hd (dir ?P))" "\<not> isSlash (last (dir ?P))"
        using pd False by (simp_all add: isPlainDir_def)
      ultimately show ?thesis by (simp add: isSeparator_def isSlash_def)
    qed
    have ec: "\<forall>c\<in>set (ext ?P). \<not> isSeparator c \<and> c \<noteq> 0xA0 \<and> c \<noteq> 0x202F"
      using pe pathParse_ext_no_slash [of "path file"]
      by (auto simp: isPlainExt_def list_all_iff isSeparator_def isSlash_def)
    have xc: "\<forall>c\<in>set (sanitize raw @ ext ?P). \<not> isSeparator c \<and> c \<noteq> 0xA0 \<and> c \<noteq> 0x202F"
      using sanitize_path_chars [of raw] ec by auto
    have xne: "sanitize raw @ ext ?P \<noteq> []" using t by simp
    have "normalizePath en (dir ?P @ js ''/'' @ (sanitize raw @ ext ?P)) = normalizeNFC en ?X"
      using na ends dc xne xc by (rule normalizePath_join)
    then have 1: "newPath en file (sanitize raw) = normalizeNFC en ?X"
      unfolding newPath_def Let_def by simp
    have rel: "path file = [] \<or> \<not> isSlash (hd (path file))"
    proof (rule ccontr)
      assume "\<not> (path file = [] \<or> \<not> isSlash (hd (path file)))"
      then have "path file \<noteq> []" "isSlash (hd (path file))" by simp_all
      then have "dir ?P \<noteq> [] \<and> isSlash (hd (dir ?P))" by (rule pathParse_absolute)
      with pd show False by (simp add: isPlainDir_def)
    qed
    have 2: "dropTrailing isSlash (path file) = joinDir (dir ?P) (name ?P @ ext ?P)"
      using rel by (rule pathParse_decompose)
    show ?thesis using 1 2 by simp
  qed
  have s: "sanitize (js ''\"Great Ideas\"'') = js ''Great Ideas''"
    by code_simp
  have e: "newPath en \<lparr>path = js ''folder/old-name.md''\<rparr> (sanitize (js ''\"Great Ideas\"'')) = js ''folder/Great Ideas.md''"
    by code_simp
  show ?thesis using main s e by blast
qed

text \<open>
  The example run from end to end: the chat endpoint answers \<^verbatim>\<open>"Great Ideas"\<close>, and
  the document \<^verbatim>\<open>folder/old-name.md\<close> is renamed to \<^verbatim>\<open>folder/Great Ideas.md\<close>.
\<close>

theorem rename_target_keeps_dir_and_ext_witness:
  "isPlainDir (dir (pathParse (path \<lparr>path = js ''folder/old-name.md''\<rparr>))) \<and>
   isPlainExt (ext (pathParse (path \<lparr>path = js ''folder/old-name.md''\<rparr>))) \<and>
   sanitize (js ''\"Great Ideas\"'') \<noteq> [] \<and>
   normalizeNFC (sampleEnv JNull) (joinDir (js ''folder'') (js ''Great Ideas'' @ js ''.md''))
     = joinDir (js ''folder'') (js ''Great Ideas'' @ js ''.md'') \<and>
   newPath (sampleEnv JNull) \<lparr>path = js ''folder/old-name.md''\<rparr> (sanitize (js ''\"Great Ideas\"''))
     = joinDir (js ''folder'') (js ''Great Ideas'' @ js ''.md'') \<and>
   dropTrailing isSlash (path \<lparr>path = js ''folder/old-name.md''\<rparr>) = joinDir (js ''folder'') (js ''old-name'' @ js ''.md'') \<and>
   filter isOutbound
     (added emptyWorld
        (snd (generateTitle
                (sampleEnv (JObj [(js ''choices'',
                   JArr [JObj [(js ''message'',
                     JObj [(js ''content'', JStr (js ''\"Great Ideas\"''))])]])]))
                (DEFAULT_SETTINGS\<lparr>openAiApiKey := js ''key'', customPrompt := js ''Title for: {{content}}''\<rparr>) \<lparr>path = js ''folder/old-name.md''\<rparr> (js ''note text'')
                emptyWorld)))
     = [ChatCompletionsCreate (chatRequest (js ''gpt-5-nano-2025-08-07'')
          (js ''Title for: note text'')),
        RenameFile (js ''folder/old-name.md'') (js ''folder/Great Ideas.md'')]"
proof -
  have d: "isPlainDir (dir (pathParse (path \<lparr>path = js ''folder/old-name.md''\<rparr>)))"
    by code_simp
  have x: "isPlainExt (ext (pathParse (path \<lparr>path = js ''folder/old-name.md''\<rparr>)))"
    by code_simp
  have t: "sanitize (js ''\"Great Ideas\"'') \<noteq> []"
    by code_simp
  have p: "dir (pathParse (path \<lparr>path = js ''folder/old-name.md''\<rparr>)) = js ''folder''"
    "name (pathParse (path \<lparr>path = js ''folder/old-name.md''\<rparr>)) = js ''old-name''"
    "ext (pathParse (path \<lparr>path = js ''folder/old-name.md''\<rparr>)) = js ''.md''"
    by code_simp+
  have s: "sanitize (js ''\"Great Ideas\"'') = js ''Great Ideas''"
    by code_simp
  have n: "normalizeNFC (sampleEnv JNull) (joinDir (js ''folder'') (js ''Great Ideas'' @ js ''.md''))
     = joinDir (js ''folder'') (js ''Great Ideas'' @ js ''.md'')"
    by code_simp
  have r: "filter isOutbound
     (added emptyWorld
        (snd (generateTitle
                (sampleEnv (JObj [(js ''choices'',
                   JArr [JObj [(js ''message'',
                     JObj [(js ''content'', JStr (js ''\"Great Ideas\"''))])]])]))
                (DEFAULT_SETTINGS\<lparr>openAiApiKey := js ''key'', customPrompt := js ''Title for: {{content}}''\<rparr>) \<lparr>path = js ''folder/old-name.md''\<rparr> (js ''note text'')
                emptyWorld)))
     = [ChatCompletionsCreate (chatRequest (js ''gpt-5-nano-2025-08-07'')
          (js ''Title for: note text'')),
        RenameFile (js ''folder/old-name.md'') (js ''folder/Great Ideas.md'')]"
    by code_simp
  note c = rename_target_keeps_dir_and_ext
      [of "\<lparr>path = js ''folder/old-name.md''\<rparr>" "js ''\"Great Ideas\"''" "sampleEnv JNull"]
  from c d x t have m:
    "(normalizeNFC (sampleEnv JNull)
        (joinDir (dir (pathParse (path \<lparr>path = js ''folder/old-name.md''\<rparr>))) (sanitize (js ''\"Great Ideas\"'') @ ext (pathParse (path \<lparr>path = js ''folder/old-name.md''\<rparr>))))
        = joinDir (dir (pathParse (path \<lparr>path = js ''folder/old-name.md''\<rparr>))) (sanitize (js ''\"Great Ideas\"'') @ ext (pathParse (path \<lparr>path = js ''folder/old-name.md''\<rparr>)))
      \<longrightarrow>
        newPath (sampleEnv JNull) \<lparr>path = js ''folder/old-name.md''\<rparr> (sanitize (js ''\"Great Ideas\"''))
          = joinDir (dir (pathParse (path \<lparr>path = js ''folder/old-name.md''\<rparr>))) (sanitize (js ''\"Great Ideas\"'') @ ext (pathParse (path \<lparr>path = js ''folder/old-name.md''\<rparr>)))) \<and>
     dropTrailing isSlash (path \<lparr>path = js ''folder/old-name.md''\<rparr>)
       = joinDir (dir (pathParse (path \<lparr>path = js ''folder/old-name.md''\<rparr>)))
           (name (pathParse (path \<lparr>path = js ''folder/old-name.md''\<rparr>)) @ ext (pathParse (path \<lparr>path = js ''folder/old-name.md''\<rparr>)))"
    by blast
  show ?thesis
    using m d x t n r unfolding p s by blast
qed

text \<open>
  Claim C6 as stated fails, since the target goes through the host's \<^verbatim>\<open>normalizePath\<close>.
  In the directory a no-break space (U+00A0 or U+202F) becomes a plain space, a backslash
  becomes a slash, a leading slash is dropped and adjacent slashes become one, so the
  directory is not kept; in the extension a no-break space becomes a plain space and a
  backslash a slash, so the extension is not kept; and a title with a combining accent is
  composed, so the new name is not the sanitized title.
\<close>

theorem rename_target_normalized:
  "sanitize (js ''Great Ideas'') = js ''Great Ideas'' \<and>
   sanitize (js ''Cafe'' @ [0x301]) = js ''Cafe'' @ [0x301] \<and>
   newPath (sampleEnv JNull) \<lparr>path = [0x61, 0xA0, 0x62] @ js ''/old.md''\<rparr> (sanitize (js ''Great Ideas''))
     = js ''a b/Great Ideas.md'' \<and>
   newPath (sampleEnv JNull) \<lparr>path = [0x61, 0xA0, 0x62] @ js ''/old.md''\<rparr> (sanitize (js ''Great Ideas''))
     \<noteq> joinDir (dir (pathParse ([0x61, 0xA0, 0x62] @ js ''/old.md'')))
           (sanitize (js ''Great Ideas'') @ ext (pathParse ([0x61, 0xA0, 0x62] @ js ''/old.md''))) \<and>
   newPath (sampleEnv JNull) \<lparr>path = [0x61, 0x202F, 0x62] @ js ''/old.md''\<rparr> (sanitize (js ''Great Ideas''))
     = js ''a b/Great Ideas.md'' \<and>
   newPath (sampleEnv JNull) \<lparr>path = [0x61, 0x202F, 0x62] @ js ''/old.md''\<rparr> (sanitize (js ''Great Ideas''))
     \<noteq> joinDir (dir (pathParse ([0x61, 0x202F, 0x62] @ js ''/old.md'')))
           (sanitize (js ''Great Ideas'') @ ext (pathParse ([0x61, 0x202F, 0x62] @ js ''/old.md''))) \<and>
   newPath (sampleEnv JNull) \<lparr>path = [0x61, 0x5C, 0x62] @ js ''/old.md''\<rparr> (sanitize (js ''Great Ideas''))
     = js ''a/b/Great Ideas.md'' \<and>
   newPath (sampleEnv JNull) \<lparr>path = [0x61, 0x5C, 0x62] @ js ''/old.md''\<rparr> (sanitize (js ''Great Ideas''))
     \<noteq> joinDir (dir (pathParse ([0x61, 0x5C, 0x62] @ js ''/old.md'')))
           (sanitize (js ''Great Ideas'') @ ext (pathParse ([0x61, 0x5C, 0x62] @ js ''/old.md''))) \<and>
   newPath (sampleEnv JNull) \<lparr>path = js ''/a/old.md''\<rparr> (sanitize (js ''Great Ideas''))
     = js ''a/Great Ideas.md'' \<and>
   newPath (sampleEnv JNull) \<lparr>path = js ''/a/old.md''\<rparr> (sanitize (js ''Great Ideas''))
     \<noteq> joinDir (dir (pathParse (js ''/a/old.md'')))
           (sanitize (js ''Great Ideas'') @ ext (pathParse (js ''/a/old.md''))) \<and>
   newPath (sampleEnv JNull) \<lparr>path = js ''a//old.md''\<rparr> (sanitize (js ''Great Ideas''))
     = js ''a/Great Ideas.md'' \<and>
   newPath (sampleEnv JNull) \<lparr>path = js ''a//old.md''\<rparr> (sanitize (js ''Great Ideas''))
     \<noteq> joinDir (dir (pathParse (js ''a//old.md'')))
           (sanitize (js ''Great Ideas'') @ ext (pathParse (js ''a//old.md''))) \<and>
   newPath (sampleEnv JNull) \<lparr>path = js ''a//b/old.md''\<rparr> (sanitize (js ''Great Ideas''))
     = js ''a/b/Great Ideas.md'' \<and>
   newPath (sampleEnv JNull) \<lparr>path = js ''a//b/old.md''\<rparr> (sanitize (js ''Great Ideas''))
     \<noteq> joinDir (dir (pathParse (js ''a//b/old.md'')))
           (sanitize (js ''Great Ideas'') @ ext (pathParse (js ''a//b/old.md''))) \<and>
   newPath (sampleEnv JNull) \<lparr>path = js ''a/old.m'' @ [0xA0, 0x64]\<rparr> (sanitize (js ''Great Ideas''))
     = js ''a/Great Ideas.m d'' \<and>
   newPath (sampleEnv JNull) \<lparr>path = js ''a/old.m'' @ [0xA0, 0x64]\<rparr> (sanitize (js ''Great Ideas''))
     \<noteq> joinDir (dir (pathParse (js ''a/old.m'' @ [0xA0, 0x64])))
           (sanitize (js ''Great Ideas'') @ ext (pathParse (js ''a/old.m'' @ [0xA0, 0x64]))) \<and>
   newPath (sampleEnv JNull) \<lparr>path = js ''a/old.m'' @ [0x202F, 0x64]\<rparr> (sanitize (js ''Great Ideas''))
     = js ''a/Great Ideas.m d'' \<and>
   newPath (sampleEnv JNull) \<lparr>path = js ''a/old.m'' @ [0x202F, 0x64]\<rparr> (sanitize (js ''Great Ideas''))
     \<noteq> joinDir (dir (pathParse (js ''a/old.m'' @ [0x202F, 0x64])))
           (sanitize (js ''Great Ideas'') @ ext (pathParse (js ''a/old.m'' @ [0x202F, 0x64]))) \<and>
   newPath (sampleEnv JNull) \<lparr>path = js ''a/old.m'' @ [0x5C, 0x64]\<rparr> (sanitize (js ''Great Ideas''))
     = js ''a/Great Ideas.m/d'' \<and>
   newPath (sampleEnv JNull) \<lparr>path = js ''a/old.m'' @ [0x5C, 0x64]\<rparr> (sanitize (js ''Great Ideas''))
     \<noteq> joinDir (dir (pathParse (js ''a/old.m'' @ [0x5C, 0x64])))
           (sanitize (js ''Great Ideas'') @ ext (pathParse (js ''a/old.m'' @ [0x5C, 0x64]))) \<and>
   newPath composingEnv \<lparr>path = js ''folder/old.md''\<rparr> (sanitize (js ''Cafe'' @ [0x301]))
     = js ''folder/Caf'' @ [0xE9] @ js ''.md'' \<and>
   newPath composingEnv \<lparr>path = js ''folder/old.md''\<rparr> (sanitize (js ''Cafe'' @ [0x301]))
     \<noteq> joinDir (dir (pathParse (js ''folder/old.md'')))
           (sanitize (js ''Cafe'' @ [0x301]) @ ext (pathParse (js ''folder/old.md'')))"
  by code_simp

end
